theory Spec2Isabelle
  imports Complex_Main
begin

section \<open>Score data handed over by the renderer\<close>

text \<open>
  JavaScript numbers are modelled as follows: ticks are \<open>int\<close> (the engine's MIDI ticks),
  pixel coordinates and the per-beat progress are \<open>real\<close>. A property that is
  \<open>undefined\<close> or \<open>null\<close> in the source is \<open>None\<close>; the operator \<open>??\<close> is a case
  distinction on the option.
\<close>

record master_bar =
  mb_index :: "int option"
  mb_start :: "int option"
  mb_calculateDuration :: "int option"
  mb_duration :: "int option"

text \<open>
  A beat as the components read it. \<open>bar_index\<close> is \<open>beat.voice?.bar?.index\<close> and
  \<open>masterBar\<close> is \<open>beat.voice?.bar?.masterBar\<close>; \<open>beat_id\<close> stands for the identity of
  the object.
\<close>

datatype beat = Beat
  (beat_id: nat)
  (absolutePlaybackStart: "int option")
  (playbackStart: "int option")
  (playbackDuration: "int option")
  (duration: "int option")
  (bar_index: "int option")
  (masterBar: "master_bar option")
  (nextBeat: "beat option")

record rect =
  rx :: real
  ry :: real
  rw :: real
  rh :: real

record beat_bounds =
  visualBounds :: "rect option"
  onNotesX :: "real option"

text \<open>
  What MaestroCursor reads from \<open>this.api\<close>: \<open>renderer.boundsLookup.findBeat\<close>,
  \<open>renderer.boundsLookup.findMasterBar(..)?.visualBounds\<close> and \<open>player.isPlaying\<close>.
\<close>

record cursor_api =
  findBeat :: "beat \<Rightarrow> beat_bounds option"
  findMasterBar :: "master_bar option \<Rightarrow> rect option"
  isPlaying :: "bool option"

definition barIdx :: "beat \<Rightarrow> int option" where
  "barIdx b = (case bar_index b of Some i \<Rightarrow> Some i
               | None \<Rightarrow> (case masterBar b of None \<Rightarrow> None | Some m \<Rightarrow> mb_index m))"

definition durOf :: "beat \<Rightarrow> int" where
  "durOf b = (case playbackDuration b of Some d \<Rightarrow> d
              | None \<Rightarrow> (case duration b of Some d \<Rightarrow> d | None \<Rightarrow> 0))"


section \<open>MaestroCursor\<close>

datatype transform = Offscreen | Translate3d real real

record maestro_cursor =
  el_visibility :: string
  el_opacity :: string
  el_transform :: transform
  el_height :: "real option"
  el_transition :: "string option"
  el_svg :: "(real \<times> real) option"
  el_debugLabel :: "(real \<times> real) option"
  currentBeat :: "beat option"
  currentNoteX :: real
  currentY :: real
  currentHeight :: real
  currentVbW :: real
  nextBeatCenterX :: "real option"
  beatStart :: int
  beatDuration :: int
  beatStartToUse :: int
  svgRendered :: bool
  lastSvgHeight :: real
  lastFinalX :: real
  lastFinalY :: real
  hasInitialPosition :: bool
  lastLogBeat :: int
  lastDebugUpdate :: real

definition cursorWidth :: real where "cursorWidth = 14"
definition topOverhang :: real where "topOverhang = 26"
definition bottomOverhang :: real where "bottomOverhang = 12"
definition bottomPointBaseShift :: real where "bottomPointBaseShift = 2"

text \<open>The state the constructor leaves behind.\<close>

definition new_cursor :: maestro_cursor where
  "new_cursor = \<lparr> el_visibility = ''hidden'', el_opacity = ''0'', el_transform = Offscreen,
     el_height = None, el_transition = None, el_svg = None, el_debugLabel = None,
     currentBeat = None, currentNoteX = 0, currentY = 0, currentHeight = 0, currentVbW = 0,
     nextBeatCenterX = None, beatStart = 0, beatDuration = 0, beatStartToUse = 0,
     svgRendered = False, lastSvgHeight = 0, lastFinalX = -1, lastFinalY = -1,
     hasInitialPosition = False, lastLogBeat = -1, lastDebugUpdate = 0 \<rparr>"

definition show_cursor :: "maestro_cursor \<Rightarrow> maestro_cursor" where
  "show_cursor s = s\<lparr> el_visibility := ''visible'', el_opacity := ''1'' \<rparr>"

definition hide :: "maestro_cursor \<Rightarrow> maestro_cursor" where
  "hide s = s\<lparr> el_visibility := ''hidden'', el_opacity := ''0'' \<rparr>"

text \<open>\<open>applyTransform\<close>: a change below half a pixel in both coordinates is dropped.\<close>

definition suppressed :: "real \<Rightarrow> real \<Rightarrow> maestro_cursor \<Rightarrow> bool" where
  "suppressed x y s \<longleftrightarrow> \<bar>x - lastFinalX s\<bar> < 0.5 \<and> \<bar>y - lastFinalY s\<bar> < 0.5"

definition applyTransform :: "real \<Rightarrow> real \<Rightarrow> real \<Rightarrow> bool \<Rightarrow> maestro_cursor \<Rightarrow> maestro_cursor" where
  "applyTransform x y h snap s =
     (if suppressed x y s then s
      else
        let s1 = s\<lparr> lastFinalX := x, lastFinalY := y \<rparr>;
            s2 = (if snap then s1\<lparr> el_transition := Some ''none'' \<rparr> else s1);
            s3 = s2\<lparr> el_transform := Translate3d x y, el_height := Some h \<rparr>
        in if \<not> svgRendered s3 \<or> \<bar>h - lastSvgHeight s3\<bar> > 5
           then s3\<lparr> el_svg := Some (h, currentHeight s3), svgRendered := True, lastSvgHeight := h \<rparr>
           else s3)"

text \<open>
  The note anchor of a looked-up beat: \<open>onNotesX\<close> when it is a number, the centre of
  the visual bounds otherwise.
\<close>

definition anchorOf :: "beat_bounds \<Rightarrow> rect \<Rightarrow> real" where
  "anchorOf bb vb = (case onNotesX bb of Some n \<Rightarrow> n | None \<Rightarrow> rx vb + rw vb / 2)"

text \<open>
  The block shared by \<open>setBeat\<close> and \<open>setTick\<close>: the anchor of candidate next beat
  \<open>nb\<close> is stored when it has bounds, lies in the same row (less than 5 pixels apart
  in y) and in the same bar as beat \<open>cur\<close>; otherwise the state is left as it is.
\<close>

definition fillNextBeatCenterX :: "cursor_api \<Rightarrow> beat option \<Rightarrow> beat \<Rightarrow> maestro_cursor \<Rightarrow> maestro_cursor" where
  "fillNextBeatCenterX api cur nb s =
     (case findBeat api nb of None \<Rightarrow> s
      | Some nbb \<Rightarrow>
         (case visualBounds nbb of None \<Rightarrow> s
          | Some nvb \<Rightarrow>
             let nx = anchorOf nbb nvb;
                 sameRow = (\<bar>ry nvb - currentY s\<bar> < 5);
                 curBarIdx = (case cur of None \<Rightarrow> None | Some c \<Rightarrow> barIdx c);
                 nextBarIdx = barIdx nb
             in if sameRow \<and> curBarIdx = nextBarIdx then s\<lparr> nextBeatCenterX := Some nx \<rparr> else s))"

definition setBeat :: "cursor_api \<Rightarrow> beat option \<Rightarrow> maestro_cursor \<Rightarrow> maestro_cursor" where
  "setBeat api bo s =
     (case bo of None \<Rightarrow> hide s
      | Some b \<Rightarrow>
         let start = (case absolutePlaybackStart b of Some a \<Rightarrow> a
                      | None \<Rightarrow> (case playbackStart b of Some p \<Rightarrow> p | None \<Rightarrow> 0));
             s1 = s\<lparr> currentBeat := Some b, beatStart := start, beatDuration := durOf b,
                     beatStartToUse := start \<rparr>
         in (case findBeat api b of None \<Rightarrow> hide s1
             | Some bb \<Rightarrow>
                (case visualBounds bb of None \<Rightarrow> hide s1
                 | Some vb \<Rightarrow>
                    let s2 = s1\<lparr> currentNoteX := anchorOf bb vb, currentY := ry vb,
                                 currentHeight := rh vb, currentVbW := rw vb,
                                 nextBeatCenterX := None \<rparr>;
                        s3 = (case nextBeat b of None \<Rightarrow> s2
                              | Some sn \<Rightarrow> fillNextBeatCenterX api (Some b) sn s2);
                        finalX = currentNoteX s3 - cursorWidth / 2;
                        totalH = rh vb + topOverhang + bottomOverhang + bottomPointBaseShift;
                        finalY = ry vb - topOverhang;
                        s4 = applyTransform finalX finalY totalH (\<not> hasInitialPosition s3) s3
                    in show_cursor (s4\<lparr> hasInitialPosition := True \<rparr>))))"

definition requestSnap :: "maestro_cursor \<Rightarrow> maestro_cursor" where
  "requestSnap s = s\<lparr> nextBeatCenterX := None, beatStartToUse := beatStart s,
                       lastFinalX := -1, lastFinalY := -1 \<rparr>"

text \<open>The locals of \<open>setTick\<close>, each a function of the state after the fill step.\<close>

definition progressOf :: "int \<Rightarrow> maestro_cursor \<Rightarrow> real" where
  "progressOf tick s =
     (if beatDuration s > 0
      then max 0 (min 1 (real_of_int (tick - beatStartToUse s) / real_of_int (beatDuration s)))
      else 0)"

definition modeA :: "maestro_cursor \<Rightarrow> bool" where
  "modeA s \<longleftrightarrow> (case nextBeatCenterX s of None \<Rightarrow> False | Some n \<Rightarrow> n > currentNoteX s)"

definition walkDistance :: "cursor_api \<Rightarrow> maestro_cursor \<Rightarrow> real" where
  "walkDistance api s =
     (if modeA s then the (nextBeatCenterX s) - currentNoteX s
      else (case findMasterBar api (case currentBeat s of None \<Rightarrow> None | Some b \<Rightarrow> masterBar b) of
              Some vb \<Rightarrow> (rx vb + rw vb) - currentNoteX s
            | None \<Rightarrow> currentVbW s))"

definition interpolatedX :: "cursor_api \<Rightarrow> int \<Rightarrow> maestro_cursor \<Rightarrow> real" where
  "interpolatedX api tick s =
     (let progress = progressOf tick s;
          x0 = currentNoteX s + walkDistance api s * progress;
          x1 = (if modeA s then min x0 (the (nextBeatCenterX s)) else x0);
          playing = (case isPlaying api of Some p \<Rightarrow> p | None \<Rightarrow> False)
      in if \<not> playing \<and> progress \<ge> 0.999 then currentNoteX s else x1)"

text \<open>
  \<open>setTick(tick, nextBeat, overrideBeatStart)\<close>, stage by stage: the beat-start override,
  the fill of \<open>nextBeatCenterX\<close>, the transform, the throttled log and the throttled debug
  label. \<open>now\<close> is the value of \<open>performance.now()\<close> read by the call.
\<close>

definition useBeatStart :: "int option \<Rightarrow> maestro_cursor \<Rightarrow> maestro_cursor" where
  "useBeatStart overrideBeatStart s =
     s\<lparr> beatStartToUse := (case overrideBeatStart of Some v \<Rightarrow> v | None \<Rightarrow> beatStart s) \<rparr>"

definition fillIfNull :: "cursor_api \<Rightarrow> beat option \<Rightarrow> maestro_cursor \<Rightarrow> maestro_cursor" where
  "fillIfNull api nb s =
     (case nb of None \<Rightarrow> s
      | Some n \<Rightarrow> if nextBeatCenterX s = None
                  then fillNextBeatCenterX api (currentBeat s) n s else s)"

definition tickState :: "cursor_api \<Rightarrow> beat option \<Rightarrow> int option \<Rightarrow> maestro_cursor \<Rightarrow> maestro_cursor" where
  "tickState api nb overrideBeatStart s = fillIfNull api nb (useBeatStart overrideBeatStart s)"

definition throttledLog :: "maestro_cursor \<Rightarrow> maestro_cursor" where
  "throttledLog s =
     (if beatStartToUse s \<noteq> lastLogBeat s then s\<lparr> lastLogBeat := beatStartToUse s \<rparr> else s)"

definition throttledDebugLabel :: "real \<Rightarrow> real \<Rightarrow> real \<Rightarrow> maestro_cursor \<Rightarrow> maestro_cursor" where
  "throttledDebugLabel now x progress s =
     (if now - lastDebugUpdate s > 100
      then s\<lparr> lastDebugUpdate := now, el_debugLabel := Some (x, progress) \<rparr> else s)"

definition finalXOf :: "cursor_api \<Rightarrow> int \<Rightarrow> maestro_cursor \<Rightarrow> real" where
  "finalXOf api tick s = interpolatedX api tick s - cursorWidth / 2"

definition finalYOf :: "maestro_cursor \<Rightarrow> real" where
  "finalYOf s = currentY s - topOverhang"

definition totalHOf :: "maestro_cursor \<Rightarrow> real" where
  "totalHOf s = currentHeight s + topOverhang + bottomOverhang + bottomPointBaseShift"

definition setTick :: "cursor_api \<Rightarrow> real \<Rightarrow> int \<Rightarrow> beat option \<Rightarrow> int option \<Rightarrow> maestro_cursor \<Rightarrow> maestro_cursor" where
  "setTick api now tick nb overrideBeatStart s =
     (if currentBeat s = None \<or> beatDuration s \<le> 0 then s
      else
        let s2 = tickState api nb overrideBeatStart s
        in throttledDebugLabel now (finalXOf api tick s2) (progressOf tick s2)
             (throttledLog (applyTransform (finalXOf api tick s2) (finalYOf s2) (totalHOf s2) False s2)))"

text \<open>A run of \<open>setTick\<close> calls, each with its own view of the renderer and the clock.\<close>

type_synonym tick_call = "cursor_api \<times> real \<times> int \<times> beat option \<times> int option"

definition setTicks :: "tick_call list \<Rightarrow> maestro_cursor \<Rightarrow> maestro_cursor" where
  "setTicks calls s = foldl (\<lambda>s (api, now, tick, nb, ov). setTick api now tick nb ov s) s calls"


section \<open>The page: tick cache, loop boundary and beat-entry gate\<close>

record playback_range =
  startTick :: int
  endTick :: int

text \<open>An entry of \<open>tickCache.masterBars\<close>: one pass of a structural bar through the timeline.\<close>

record master_bar_tick_lookup =
  mbl_masterBar :: "master_bar option"
  mbl_start :: int

text \<open>
  \<open>tc_findBeat t\<close> is \<open>tickCache.findBeat(trackIndices, t)?.beat\<close>; \<open>tc_getBeatStart\<close> is
  \<open>None\<close> when \<open>tickCache.getBeatStart\<close> is not a function.
\<close>

record tick_cache =
  tc_masterBars :: "master_bar_tick_lookup list option"
  tc_findBeat :: "int \<Rightarrow> beat option"
  tc_getBeatStart :: "(beat \<Rightarrow> int) option"

record bar_bounds =
  bb_visualBounds :: "rect option"
  bb_voices :: "beat option list list"

record master_bar_bounds =
  mbb_masterBar :: "master_bar option"
  mbb_index :: "int option"
  mbb_bars :: "bar_bounds list"

record page_api =
  cursorApi :: cursor_api
  tickCache :: "tick_cache option"
  staffSystems :: "master_bar_bounds list list"

record position_event =
  currentTick :: "int option"
  ev_tickPosition :: "int option"

text \<open>The settable playback fields of the engine: loop range, transport position, loop flag.\<close>

record player_state =
  playbackRange :: "playback_range option"
  tickPosition :: "int option"
  isLooping :: bool

record page_state =
  cursorRef :: "maestro_cursor option"
  loopEnabledRef :: bool
  lastTickRef :: "int option"
  stableCurBeatRef :: "beat option"
  stableExpandedBeatStartRef :: int
  stableNextBeatRef :: "beat option"
  player :: player_state
  manualLoop :: "(int \<times> int) option"

definition SAFETY_MARGIN :: int where "SAFETY_MARGIN = 120"

text \<open>\<open>e.currentTick ?? e.tickPosition\<close>\<close>

definition eventTick :: "position_event \<Rightarrow> int option" where
  "eventTick e = (case currentTick e of Some t \<Rightarrow> Some t | None \<Rightarrow> ev_tickPosition e)"

text \<open>The condition of the loop boundary enforcer at the head of \<open>playerPositionChanged\<close>.\<close>

definition loopBoundaryHit :: "bool \<Rightarrow> playback_range option \<Rightarrow> int \<Rightarrow> bool" where
  "loopBoundaryHit enabled rng tickRaw \<longleftrightarrow>
     enabled \<and> (case rng of None \<Rightarrow> False | Some r \<Rightarrow> tickRaw \<ge> endTick r - SAFETY_MARGIN)"

definition masterBarIndex :: "beat \<Rightarrow> int option" where
  "masterBarIndex b = (case masterBar b of None \<Rightarrow> None | Some m \<Rightarrow> mb_index m)"

definition isSameBeat :: "beat option \<Rightarrow> beat option \<Rightarrow> bool" where
  "isSameBeat a b =
     (case a of None \<Rightarrow> False
      | Some x \<Rightarrow> (case b of None \<Rightarrow> False
                  | Some y \<Rightarrow> absolutePlaybackStart x = absolutePlaybackStart y
                             \<and> masterBarIndex x = masterBarIndex y))"

definition mblIndex :: "master_bar_tick_lookup \<Rightarrow> int option" where
  "mblIndex mb = (case mbl_masterBar mb of None \<Rightarrow> None | Some m \<Rightarrow> mb_index m)"

definition mblDur :: "master_bar_tick_lookup \<Rightarrow> int" where
  "mblDur mb = (case mbl_masterBar mb of None \<Rightarrow> 0
                | Some m \<Rightarrow> (case mb_calculateDuration m of None \<Rightarrow> 0 | Some d \<Rightarrow> d))"

text \<open>
  Step 1 of the expanded beat resolution: walk \<open>masterBars\<close>, count the occurrences of
  each structural index, and keep the last entry whose range holds the tick as
  (index, occurrence, expanded start).
\<close>

fun findOwner :: "int \<Rightarrow> master_bar_tick_lookup list \<Rightarrow> (int \<Rightarrow> nat) \<Rightarrow> (int \<times> nat \<times> int) option
                  \<Rightarrow> (int \<times> nat \<times> int) option" where
  "findOwner tick [] occ owner = owner"
| "findOwner tick (mb # mbs) occ owner =
     (case mblIndex mb of None \<Rightarrow> findOwner tick mbs occ owner
      | Some i \<Rightarrow>
         findOwner tick mbs (occ(i := occ i + 1))
           (if tick \<ge> mbl_start mb \<and> tick < mbl_start mb + mblDur mb
            then Some (i, occ i, mbl_start mb) else owner))"

definition mbbIdx :: "master_bar_bounds \<Rightarrow> int option" where
  "mbbIdx mbb = (case (case mbb_masterBar mbb of None \<Rightarrow> None | Some m \<Rightarrow> mb_index m) of
                   Some i \<Rightarrow> Some i | None \<Rightarrow> mbb_index mbb)"

text \<open>Step 2: the visual instance of the owner bar with the owner's occurrence number.\<close>

fun findTargetMbb :: "int \<Rightarrow> nat \<Rightarrow> master_bar_bounds list \<Rightarrow> (int \<Rightarrow> nat) \<Rightarrow> master_bar_bounds option" where
  "findTargetMbb ownerIdx ownerOcc [] occ = None"
| "findTargetMbb ownerIdx ownerOcc (mbb # rest) occ =
     (case mbbIdx mbb of None \<Rightarrow> findTargetMbb ownerIdx ownerOcc rest occ
      | Some v \<Rightarrow>
         if v = ownerIdx \<and> occ v = ownerOcc then Some mbb
         else findTargetMbb ownerIdx ownerOcc rest (occ(v := occ v + 1)))"

text \<open>Step 3: the first beat of that instance whose expanded range holds the tick.\<close>

definition beatOwnsTick :: "int \<Rightarrow> int \<Rightarrow> beat option \<Rightarrow> bool" where
  "beatOwnsTick ownerExpandedStart tick bo =
     (case bo of None \<Rightarrow> False
      | Some b \<Rightarrow>
         let bOffset = (case playbackStart b of Some p \<Rightarrow> p | None \<Rightarrow> 0);
             beatExpandedStart = ownerExpandedStart + bOffset
         in beatExpandedStart \<le> tick \<and> tick < beatExpandedStart + durOf b)"

definition beatsOf :: "master_bar_bounds \<Rightarrow> beat option list" where
  "beatsOf mbb = concat (map (\<lambda>bar. concat (bb_voices bar)) (mbb_bars mbb))"

definition resolveExpandedBeat :: "page_api \<Rightarrow> tick_cache \<Rightarrow> int \<Rightarrow> beat option" where
  "resolveExpandedBeat api tc tick =
     (case tc_masterBars tc of None \<Rightarrow> None
      | Some masterBarsArr \<Rightarrow>
         (case findOwner tick masterBarsArr (\<lambda>_. 0) None of None \<Rightarrow> None
          | Some (ownerMbIdx, ownerOccurrence, ownerExpandedStart) \<Rightarrow>
             (case findTargetMbb ownerMbIdx ownerOccurrence (concat (staffSystems api)) (\<lambda>_. 0) of
                None \<Rightarrow> None
              | Some targetMbb \<Rightarrow>
                 (case find (beatOwnsTick ownerExpandedStart tick) (beatsOf targetMbb) of
                    None \<Rightarrow> None | Some bo \<Rightarrow> bo))))"

text \<open>The resolved beat of an event, with the structurally biased \<open>findBeat\<close> as fallback.\<close>

definition resolveCurBeat :: "page_api \<Rightarrow> tick_cache \<Rightarrow> int \<Rightarrow> beat option" where
  "resolveCurBeat api tc tick =
     (case resolveExpandedBeat api tc tick of Some b \<Rightarrow> Some b | None \<Rightarrow> tc_findBeat tc tick)"

text \<open>
  The two bounded scans. Each returns its result together with the number of
  \<open>tickCache.findBeat\<close> calls it made; the last argument is the number of iterations
  the loop still has.
\<close>

fun backwardScan :: "(int \<Rightarrow> beat option) \<Rightarrow> beat \<Rightarrow> int \<Rightarrow> int \<Rightarrow> nat \<Rightarrow> int \<times> nat" where
  "backwardScan fb curBeat tick t 0 = (tick, 0)"
| "backwardScan fb curBeat tick t (Suc n) =
     (if fb t = None \<or> \<not> isSameBeat (fb t) (Some curBeat) then (t + 1, 1)
      else (case backwardScan fb curBeat tick (t - 1) n of (r, c) \<Rightarrow> (r, Suc c)))"

fun forwardScan :: "(int \<Rightarrow> beat option) \<Rightarrow> beat \<Rightarrow> int \<Rightarrow> nat \<Rightarrow> beat option \<times> nat" where
  "forwardScan fb curBeat t 0 = (None, 0)"
| "forwardScan fb curBeat t (Suc n) =
     (if fb t \<noteq> None \<and> \<not> isSameBeat (fb t) (Some curBeat) then (fb t, 1)
      else (case forwardScan fb curBeat (t + 1) n of (r, c) \<Rightarrow> (r, Suc c)))"

definition jumpDetected :: "int option \<Rightarrow> int \<Rightarrow> bool" where
  "jumpDetected lastTick tick = (case lastTick of None \<Rightarrow> False | Some l \<Rightarrow> \<bar>tick - l\<bar> > 2000)"

text \<open>The beat-entry block behind the guard: both scans, then \<open>setBeat\<close>.\<close>

definition beatEntry :: "page_api \<Rightarrow> tick_cache \<Rightarrow> int \<Rightarrow> beat \<Rightarrow> page_state \<Rightarrow> page_state \<times> nat" where
  "beatEntry api tc tick curBeat st =
     (case backwardScan (tc_findBeat tc) curBeat tick (tick - 1) 2000 of
        (expandedBeatStart, c1) \<Rightarrow>
          (case forwardScan (tc_findBeat tc) curBeat (expandedBeatStart + 1) 4000 of
             (scannedNextBeat, c2) \<Rightarrow>
               (st\<lparr> stableCurBeatRef := Some curBeat,
                    stableExpandedBeatStartRef := expandedBeatStart,
                    stableNextBeatRef := scannedNextBeat,
                    cursorRef := map_option (setBeat (cursorApi api) (Some curBeat)) (cursorRef st) \<rparr>,
                c1 + c2)))"

text \<open>
  The handler of \<open>playerPositionChanged\<close>. The second component of the result is the
  number of \<open>findBeat\<close> calls made by the backward and forward scan loops during the
  event.
\<close>

definition playerPositionChanged :: "page_api \<Rightarrow> real \<Rightarrow> position_event \<Rightarrow> page_state \<Rightarrow> page_state \<times> nat" where
  "playerPositionChanged api now e st =
     (case cursorRef st of None \<Rightarrow> (st, 0)
      | Some cur \<Rightarrow>
         (case eventTick e of
            None \<Rightarrow> (st, 0)
          | Some tick \<Rightarrow>
             if loopBoundaryHit (loopEnabledRef st) (playbackRange (player st)) tick
             then (st\<lparr> cursorRef := Some (requestSnap cur),
                       player := (player st)\<lparr> tickPosition :=
                                    map_option startTick (playbackRange (player st)) \<rparr> \<rparr>, 0)
             else
               let jumped = jumpDetected (lastTickRef st) tick;
                   st1 = st\<lparr> lastTickRef := Some tick \<rparr>;
                   st2 = (if jumped
                          then st1\<lparr> cursorRef := Some (requestSnap cur), stableCurBeatRef := None,
                                    stableExpandedBeatStartRef := 0 \<rparr>
                          else st1)
               in (case tickCache api of None \<Rightarrow> (st2, 0)
                   | Some tc \<Rightarrow>
                      (case resolveCurBeat api tc tick of None \<Rightarrow> (st2, 0)
                       | Some curBeat \<Rightarrow>
                          (case (if \<not> isSameBeat (Some curBeat) (stableCurBeatRef st2) \<or> jumped
                                 then beatEntry api tc tick curBeat st2 else (st2, 0)) of
                             (st3, calls) \<Rightarrow>
                               (st3\<lparr> cursorRef :=
                                       map_option (setTick (cursorApi api) now tick (stableNextBeatRef st3)
                                                     (Some (stableExpandedBeatStartRef st3))) (cursorRef st3) \<rparr>,
                                calls))))))"

text \<open>\<open>api.tickCache?.findBeat(trackIndices, t)?.beat\<close>\<close>

definition cacheFindBeat :: "page_api \<Rightarrow> int \<Rightarrow> beat option" where
  "cacheFindBeat api t = (case tickCache api of None \<Rightarrow> None | Some tc \<Rightarrow> tc_findBeat tc t)"

text \<open>
  \<open>enableManualLoop\<close>: the last tick of the range at which a beat resolves, scanning down
  from \<open>endExclusive - 1\<close>, and the handler it registers.
\<close>

function lastValidFrom :: "(int \<Rightarrow> beat option) \<Rightarrow> int \<Rightarrow> int \<Rightarrow> int" where
  "lastValidFrom fb start t =
     (if t \<ge> start then (if fb t \<noteq> None then t else lastValidFrom fb start (t - 1)) else start)"
  by pat_completeness auto
termination
  by (relation "measure (\<lambda>(fb, start, t). nat (t - start + 1))") auto

declare lastValidFrom.simps [simp del]

definition enableManualLoop :: "page_api \<Rightarrow> page_state \<Rightarrow> page_state" where
  "enableManualLoop api st =
     (case playbackRange (player st) of None \<Rightarrow> st
      | Some r \<Rightarrow>
         let start = startTick r;
             endExclusive = endTick r;
             lastValid = lastValidFrom (cacheFindBeat api) start (endExclusive - 1)
         in st\<lparr> player := (player st)\<lparr> isLooping := False \<rparr>,
                 manualLoop := Some (start, lastValid) \<rparr>)"

definition manualLoopHandler :: "position_event \<Rightarrow> page_state \<Rightarrow> page_state" where
  "manualLoopHandler e st =
     (case manualLoop st of None \<Rightarrow> st
      | Some (start, lastValid) \<Rightarrow>
         (case eventTick e of
            None \<Rightarrow> st
          | Some tick \<Rightarrow>
             if tick < start then st\<lparr> player := (player st)\<lparr> tickPosition := Some start \<rparr> \<rparr>
             else if tick \<ge> lastValid
                  then st\<lparr> player := (player st)\<lparr> tickPosition := Some start \<rparr> \<rparr>
             else st))"


section \<open>BeatCustomLoopOverlay: gesture and commit\<close>

text \<open>
  The overlay's refs and the engine fields it writes. \<open>commits\<close> records every call of
  \<open>onLoopChange\<close> together with the path that made it. Painting of the highlight
  rectangles and console output are not part of the model.
\<close>

datatype commit = BarSnap int int | BeatLevel int int

record overlay_state =
  loopRef :: bool
  isDragging :: bool
  startBeat :: "beat option"
  endBeat :: "beat option"
  downXRef :: real
  downYRef :: real
  downTickRef :: "int option"
  beatCrossedRef :: bool
  ov_player :: player_state
  commits :: "commit list"

text \<open>
  A mouse event: \<open>resolved\<close> is the beat that \<open>resolveBeatWithX(e)\<close> returns for it
  (\<open>None\<close> for \<open>null\<close>).
\<close>

record mouse_event =
  resolved :: "beat option"
  clientX :: real
  clientY :: real

definition tickOf :: "tick_cache option \<Rightarrow> beat \<Rightarrow> int" where
  "tickOf tco b =
     (case (case tco of None \<Rightarrow> None | Some tc \<Rightarrow> tc_getBeatStart tc) of
        Some getBeatStart \<Rightarrow> getBeatStart b
      | None \<Rightarrow> (case absolutePlaybackStart b of Some a \<Rightarrow> a | None \<Rightarrow> 0))"

definition loHi :: "tick_cache option \<Rightarrow> beat \<Rightarrow> beat \<Rightarrow> beat \<times> beat" where
  "loHi tco a b = (if tickOf tco a \<le> tickOf tco b then (a, b) else (b, a))"

definition inExpandedBar :: "int \<Rightarrow> master_bar_tick_lookup \<Rightarrow> bool" where
  "inExpandedBar tick mb \<longleftrightarrow> mblDur mb > 0 \<and> tick \<ge> mbl_start mb \<and> tick < mbl_start mb + mblDur mb"

definition getExpandedBarRange :: "tick_cache option \<Rightarrow> int \<Rightarrow> beat option \<Rightarrow> playback_range option" where
  "getExpandedBarRange tco tick bo =
     (case find (inExpandedBar tick)
             (case tco of None \<Rightarrow> []
              | Some tc \<Rightarrow> (case tc_masterBars tc of None \<Rightarrow> [] | Some mbs \<Rightarrow> mbs)) of
        Some mb \<Rightarrow> Some \<lparr> startTick = mbl_start mb, endTick = mbl_start mb + mblDur mb \<rparr>
      | None \<Rightarrow>
         (case bo of None \<Rightarrow> None
          | Some b \<Rightarrow>
             (case masterBar b of None \<Rightarrow> None
              | Some m \<Rightarrow>
                 let start = (case mb_start m of Some v \<Rightarrow> v | None \<Rightarrow> 0);
                     dur = (case mb_calculateDuration m of Some d \<Rightarrow> d
                            | None \<Rightarrow> (case mb_duration m of Some d \<Rightarrow> d | None \<Rightarrow> 1920))
                 in if dur > 0 then Some \<lparr> startTick = start, endTick = start + dur \<rparr> else None)))"

text \<open>\<open>commitBarSnap\<close>: \<open>None\<close> stands for the result \<open>false\<close>, which leaves the state alone.\<close>

definition commitBarSnap :: "tick_cache option \<Rightarrow> beat \<Rightarrow> overlay_state \<Rightarrow> overlay_state option" where
  "commitBarSnap tco b st =
     (case getExpandedBarRange tco (tickOf tco b) (Some b) of None \<Rightarrow> None
      | Some r \<Rightarrow>
         (case barIdx b of None \<Rightarrow> None
          | Some i \<Rightarrow>
             Some (st\<lparr> ov_player := (ov_player st)\<lparr> playbackRange := Some r, isLooping := True \<rparr>,
                       commits := commits st @ [BarSnap (startTick r) (endTick r)] \<rparr>)))"

definition onDown :: "tick_cache option \<Rightarrow> mouse_event \<Rightarrow> overlay_state \<Rightarrow> overlay_state" where
  "onDown tco e st =
     (if \<not> loopRef st then st
      else (case resolved e of None \<Rightarrow> st
            | Some b \<Rightarrow>
               st\<lparr> isDragging := True, downXRef := clientX e, downYRef := clientY e,
                   startBeat := Some b, endBeat := Some b, downTickRef := Some (tickOf tco b),
                   beatCrossedRef := False \<rparr>))"

definition onMove :: "tick_cache option \<Rightarrow> mouse_event \<Rightarrow> overlay_state \<Rightarrow> overlay_state" where
  "onMove tco e st =
     (if \<not> isDragging st \<or> startBeat st = None then st
      else (case resolved e of None \<Rightarrow> st
            | Some b \<Rightarrow>
               let st1 = st\<lparr> endBeat := Some b \<rparr>;
                   curTick = tickOf tco b
               in if downTickRef st1 \<noteq> None \<and> Some curTick \<noteq> downTickRef st1
                  then st1\<lparr> beatCrossedRef := True \<rparr> else st1))"

definition onUp :: "tick_cache option \<Rightarrow> mouse_event \<Rightarrow> overlay_state \<Rightarrow> overlay_state" where
  "onUp tco e st =
     (if \<not> isDragging st then st
      else
        let st1 = st\<lparr> isDragging := False \<rparr>
        in (case startBeat st1 of None \<Rightarrow> st1
            | Some sb \<Rightarrow>
               (case (if \<not> beatCrossedRef st1 then commitBarSnap tco sb st1 else None) of
                  Some st2 \<Rightarrow> st2
                | None \<Rightarrow>
                   (case loHi tco sb (case endBeat st1 of Some eb \<Rightarrow> eb | None \<Rightarrow> sb) of
                      (lo, hi) \<Rightarrow>
                        let startTick' = tickOf tco lo;
                            endTick' = tickOf tco hi + durOf hi
                        in st1\<lparr> ov_player := (ov_player st1)\<lparr>
                                   playbackRange := Some \<lparr> startTick = startTick', endTick = endTick' \<rparr>,
                                   isLooping := True \<rparr>,
                                commits := commits st1 @ [BeatLevel startTick' endTick'] \<rparr>))))"

definition handleRenderFinished :: "overlay_state \<Rightarrow> overlay_state" where
  "handleRenderFinished st =
     st\<lparr> isDragging := False, startBeat := None, endBeat := None, beatCrossedRef := False \<rparr>"

text \<open>A whole gesture: the press, the moves in order, the release.\<close>

definition gesture :: "tick_cache option \<Rightarrow> mouse_event \<Rightarrow> mouse_event list \<Rightarrow> mouse_event
                       \<Rightarrow> overlay_state \<Rightarrow> overlay_state" where
  "gesture tco press moves release st =
     onUp tco release (foldl (\<lambda>s m. onMove tco m s) (onDown tco press st) moves)"


text \<open>The overlay between press and release: dragging from beat \<open>sb\<close>, pressed at its tick.\<close>

definition pressedOn :: "tick_cache option \<Rightarrow> beat \<Rightarrow> overlay_state \<Rightarrow> bool" where
  "pressedOn tco sb s \<longleftrightarrow> isDragging s \<and> startBeat s = Some sb \<and> downTickRef s = Some (tickOf tco sb)"

definition crosses :: "tick_cache option \<Rightarrow> beat \<Rightarrow> mouse_event \<Rightarrow> bool" where
  "crosses tco sb m \<longleftrightarrow> (case resolved m of None \<Rightarrow> False | Some b \<Rightarrow> tickOf tco b \<noteq> tickOf tco sb)"


section \<open>CustomLoopOverlay: expanded bar start and loop tail\<close>

text \<open>\<open>tickCache?.masterBars?.filter(mb => mb.masterBar?.index === visualBarIndex) ?? []\<close>\<close>

definition instancesOf :: "tick_cache option \<Rightarrow> int \<Rightarrow> master_bar_tick_lookup list" where
  "instancesOf tco visualBarIndex =
     filter (\<lambda>mb. mblIndex mb = Some visualBarIndex)
       (case tco of None \<Rightarrow> []
        | Some tc \<Rightarrow> (case tc_masterBars tc of None \<Rightarrow> [] | Some mbs \<Rightarrow> mbs))"

text \<open>The callback of the \<open>reduce\<close>: the current entry wins only when it is strictly closer.\<close>

definition nearer :: "int \<Rightarrow> master_bar_tick_lookup \<Rightarrow> master_bar_tick_lookup \<Rightarrow> master_bar_tick_lookup" where
  "nearer refTick prevMb currMb =
     (if \<bar>mbl_start currMb - refTick\<bar> < \<bar>mbl_start prevMb - refTick\<bar> then currMb else prevMb)"

definition resolveExpandedBarStart :: "tick_cache option \<Rightarrow> int \<Rightarrow> int \<Rightarrow> int option" where
  "resolveExpandedBarStart tco visualBarIndex refTick =
     (case instancesOf tco visualBarIndex of
        [] \<Rightarrow> None
      | first # others \<Rightarrow> Some (mbl_start (foldl (nearer refTick) first others)))"

text \<open>
  The repeat-aware seek of the page's click handler: the same reduction over
  \<open>mb.start + offsetInBar\<close>, with the playback position as reference. \<open>None\<close> is the early
  return on an empty instance list.
\<close>

definition trueTargetTick :: "tick_cache option \<Rightarrow> int \<Rightarrow> int \<Rightarrow> int \<Rightarrow> int option" where
  "trueTargetTick tco visualBarIndex offsetInBar playbackTick =
     (case map (\<lambda>mb. mbl_start mb + offsetInBar) (instancesOf tco visualBarIndex) of
        [] \<Rightarrow> None
      | first # others \<Rightarrow>
          Some (foldl (\<lambda>prevT currT. if \<bar>currT - playbackTick\<bar> < \<bar>prevT - playbackTick\<bar> then currT else prevT)
                  first others))"








section \<open>A sample score: bar 5, four quarter beats, played three times\<close>

definition bar5 :: master_bar where
  "bar5 = \<lparr> mb_index = Some 5, mb_start = Some 9600, mb_calculateDuration = Some 1920,
            mb_duration = None \<rparr>"

definition beat4 :: beat where
  "beat4 = Beat 4 (Some 11040) (Some 1440) (Some 480) None (Some 5) (Some bar5) None"

definition beat3 :: beat where
  "beat3 = Beat 3 (Some 10560) (Some 960) (Some 480) None (Some 5) (Some bar5) (Some beat4)"

definition beat2 :: beat where
  "beat2 = Beat 2 (Some 10080) (Some 480) (Some 480) None (Some 5) (Some bar5) (Some beat3)"

definition beat1 :: beat where
  "beat1 = Beat 1 (Some 9600) (Some 0) (Some 480) None (Some 5) (Some bar5) (Some beat2)"

text \<open>A beat of duration zero, and a beat without voice, bar or master bar.\<close>

definition zeroBeat :: beat where
  "zeroBeat = Beat 8 (Some 9600) (Some 0) (Some 0) None (Some 5) (Some bar5) None"


definition strayBeat :: beat where
  "strayBeat = Beat 9 (Some 9600) (Some 0) (Some 480) None None None None"

definition sampleFindBeat :: "int \<Rightarrow> beat option" where
  "sampleFindBeat t =
     (if 9600 \<le> t \<and> t < 10080 then Some beat1
      else if 10080 \<le> t \<and> t < 10560 then Some beat2
      else if 10560 \<le> t \<and> t < 11040 then Some beat3
      else if 11040 \<le> t \<and> t < 11520 then Some beat4
      else None)"

definition sampleTickCache :: tick_cache where
  "sampleTickCache = \<lparr>
     tc_masterBars = Some [ \<lparr> mbl_masterBar = Some bar5, mbl_start = 9600 \<rparr>,
                            \<lparr> mbl_masterBar = Some bar5, mbl_start = 19200 \<rparr>,
                            \<lparr> mbl_masterBar = Some bar5, mbl_start = 28800 \<rparr> ],
     tc_findBeat = sampleFindBeat,
     tc_getBeatStart = Some (\<lambda>b. case absolutePlaybackStart b of Some a \<Rightarrow> a | None \<Rightarrow> -1) \<rparr>"

definition sampleBounds :: "beat \<Rightarrow> beat_bounds option" where
  "sampleBounds b =
     (if beat_id b = 1 then Some \<lparr> visualBounds = Some \<lparr> rx = 100, ry = 300, rw = 40, rh = 80 \<rparr>, onNotesX = Some 110 \<rparr>
      else if beat_id b = 2 then Some \<lparr> visualBounds = Some \<lparr> rx = 150, ry = 300, rw = 40, rh = 80 \<rparr>, onNotesX = Some 160 \<rparr>
      else if beat_id b = 3 then Some \<lparr> visualBounds = Some \<lparr> rx = 200, ry = 300, rw = 40, rh = 80 \<rparr>, onNotesX = Some 210 \<rparr>
      else if beat_id b = 4 then Some \<lparr> visualBounds = Some \<lparr> rx = 250, ry = 300, rw = 40, rh = 80 \<rparr>, onNotesX = Some 260 \<rparr>
      else None)"

text \<open>The bar is drawn from x = 90 to x = 310.\<close>

definition sampleCursorApi :: "bool \<Rightarrow> cursor_api" where
  "sampleCursorApi playing = \<lparr>
     findBeat = sampleBounds,
     findMasterBar = (\<lambda>m. case m of None \<Rightarrow> None
                           | Some mb \<Rightarrow> if mb_index mb = Some 5
                                       then Some \<lparr> rx = 90, ry = 300, rw = 220, rh = 80 \<rparr> else None),
     isPlaying = Some playing \<rparr>"

definition samplePageApi :: "bool \<Rightarrow> page_api" where
  "samplePageApi playing = \<lparr>
     cursorApi = sampleCursorApi playing,
     tickCache = Some sampleTickCache,
     staffSystems = [[ \<lparr> mbb_masterBar = Some bar5, mbb_index = Some 5,
                         mbb_bars = [ \<lparr> bb_visualBounds = Some \<lparr> rx = 90, ry = 300, rw = 220, rh = 80 \<rparr>,
                                        bb_voices = [[Some beat1, Some beat2, Some beat3, Some beat4]] \<rparr> ] \<rparr> ]] \<rparr>"

definition idlePlayer :: player_state where
  "idlePlayer = \<lparr> playbackRange = None, tickPosition = None, isLooping = False \<rparr>"

definition idleOverlay :: overlay_state where
  "idleOverlay = \<lparr> loopRef = True, isDragging = False, startBeat = None, endBeat = None,
      downXRef = 0, downYRef = 0, downTickRef = None, beatCrossedRef = False,
      ov_player = idlePlayer, commits = [] \<rparr>"

definition pointerAt :: "beat option \<Rightarrow> real \<Rightarrow> mouse_event" where
  "pointerAt b x = \<lparr> resolved = b, clientX = x, clientY = 320 \<rparr>"

text \<open>The engine looping over bar 5, first pass, with the transport at \<open>pos\<close>.\<close>

definition loopPlayer :: "int \<Rightarrow> player_state" where
  "loopPlayer pos = \<lparr> playbackRange = Some \<lparr> startTick = 9600, endTick = 11520 \<rparr>,
      tickPosition = Some pos, isLooping = True \<rparr>"

text \<open>The page with the cursor attached, loop mode on and the given engine state.\<close>

definition loopingPage :: "player_state \<Rightarrow> page_state" where
  "loopingPage pl = \<lparr> cursorRef = Some new_cursor, loopEnabledRef = True, lastTickRef = None,
      stableCurBeatRef = None, stableExpandedBeatStartRef = 0, stableNextBeatRef = None,
      player = pl, manualLoop = None \<rparr>"

definition tickEvent :: "int \<Rightarrow> position_event" where
  "tickEvent t = \<lparr> currentTick = Some t, ev_tickPosition = None \<rparr>"

text \<open>Beat 1 with no structural next beat: the link is found only by the page's forward scan.\<close>

definition beat1Alone :: beat where
  "beat1Alone = Beat 1 (Some 9600) (Some 0) (Some 480) None (Some 5) (Some bar5) None"




text \<open>
  A beat in the top left corner of the page: note anchor at x = 6, top at y = 25, in a bar
  drawn from x = 0 to x = 220.
\<close>

definition bar0 :: master_bar where
  "bar0 = \<lparr> mb_index = Some 0, mb_start = Some 0, mb_calculateDuration = Some 1920,
            mb_duration = None \<rparr>"

definition cornerBeat :: beat where
  "cornerBeat = Beat 7 (Some 0) (Some 0) (Some 480) None (Some 0) (Some bar0) None"

definition cornerCursorApi :: "bool \<Rightarrow> cursor_api" where
  "cornerCursorApi playing = \<lparr>
     findBeat = (\<lambda>b. if beat_id b = 7
                     then Some \<lparr> visualBounds = Some \<lparr> rx = 0, ry = 25, rw = 12, rh = 80 \<rparr>,
                                 onNotesX = Some 6 \<rparr>
                     else None),
     findMasterBar = (\<lambda>m. case m of None \<Rightarrow> None
                           | Some mb \<Rightarrow> if mb_index mb = Some 0
                                       then Some \<lparr> rx = 0, ry = 25, rw = 220, rh = 80 \<rparr> else None),
     isPlaying = Some playing \<rparr>"

text \<open>The page in the middle of beat 1, last seen at tick 9700.\<close>

definition trackingPage :: page_state where
  "trackingPage = (loopingPage idlePlayer)\<lparr> lastTickRef := Some 9700, stableCurBeatRef := Some beat1,
      stableExpandedBeatStartRef := 9600, stableNextBeatRef := Some beat2 \<rparr>"


section \<open>Properties of MaestroCursor\<close>

subsection \<open>Hiding commutes with every stage of \<open>setTick\<close>\<close>

lemma hide_fields [simp]:
  "currentBeat (hide s) = currentBeat s" "currentNoteX (hide s) = currentNoteX s"
  "currentY (hide s) = currentY s" "currentHeight (hide s) = currentHeight s"
  "currentVbW (hide s) = currentVbW s" "nextBeatCenterX (hide s) = nextBeatCenterX s"
  "beatStart (hide s) = beatStart s" "beatDuration (hide s) = beatDuration s"
  "beatStartToUse (hide s) = beatStartToUse s" "lastFinalX (hide s) = lastFinalX s"
  "lastFinalY (hide s) = lastFinalY s" "lastLogBeat (hide s) = lastLogBeat s"
  "lastDebugUpdate (hide s) = lastDebugUpdate s" "el_transform (hide s) = el_transform s"
  "svgRendered (hide s) = svgRendered s" "lastSvgHeight (hide s) = lastSvgHeight s"
  "hasInitialPosition (hide s) = hasInitialPosition s"
  "el_visibility (hide s) = ''hidden''" "el_opacity (hide s) = ''0''"
  by (simp_all add: hide_def)

lemma applyTransform_hide: "applyTransform x y h snap (hide s) = hide (applyTransform x y h snap s)"
  by (simp add: applyTransform_def Let_def hide_def suppressed_def)

lemma fill_hide: "fillNextBeatCenterX api cur nb (hide s) = hide (fillNextBeatCenterX api cur nb s)"
  by (simp add: fillNextBeatCenterX_def Let_def hide_def split: option.splits)

lemma useBeatStart_hide: "useBeatStart ov (hide s) = hide (useBeatStart ov s)"
  by (cases ov) (simp_all add: useBeatStart_def hide_def)

lemma fillIfNull_hide: "fillIfNull api nb (hide s) = hide (fillIfNull api nb s)"
  by (cases nb) (simp_all add: fillIfNull_def fill_hide)

lemma tickState_hide: "tickState api nb ov (hide s) = hide (tickState api nb ov s)"
  by (simp add: tickState_def useBeatStart_hide fillIfNull_hide)

lemma throttledLog_hide: "throttledLog (hide s) = hide (throttledLog s)"
  by (simp add: throttledLog_def hide_def)

lemma throttledDebugLabel_hide: "throttledDebugLabel now x p (hide s) = hide (throttledDebugLabel now x p s)"
  by (simp add: throttledDebugLabel_def hide_def)

lemma progressOf_hide [simp]: "progressOf tick (hide s) = progressOf tick s"
  by (simp add: progressOf_def)

lemma modeA_hide [simp]: "modeA (hide s) = modeA s"
  by (simp add: modeA_def cong: option.case_cong)

lemma walkDistance_hide [simp]: "walkDistance api (hide s) = walkDistance api s"
  by (simp add: walkDistance_def cong: option.case_cong)

lemma interpolatedX_hide [simp]: "interpolatedX api tick (hide s) = interpolatedX api tick s"
  by (simp add: interpolatedX_def Let_def)

lemma finals_hide [simp]: "finalXOf api tick (hide s) = finalXOf api tick s"
  "finalYOf (hide s) = finalYOf s" "totalHOf (hide s) = totalHOf s"
  by (simp_all add: finalXOf_def finalYOf_def totalHOf_def)

lemma hide_setTick_commute:
  "setTick api now tick nb ov (hide s) = hide (setTick api now tick nb ov s)"
  by (simp add: setTick_def Let_def tickState_hide applyTransform_hide throttledLog_hide throttledDebugLabel_hide)



subsection \<open>The malformed-beat guard\<close>

text \<open>
  C9. When \<open>setTick\<close> is called while no current beat is set, or while the duration of the
  current beat is zero or negative, the call returns at once: the whole cursor state
  (transform, visibility and every frozen per-beat field) is what it was before.
\<close>

theorem setTick_malformed_beat_noop:
  assumes "currentBeat s = None \<or> beatDuration s \<le> 0"
  shows "setTick api now tick nb overrideBeatStart s = s"
  using assms by (simp add: setTick_def)

text \<open>The guard at work on a beat of duration zero.\<close>

theorem setTick_malformed_beat_noop_witness:
  "(currentBeat (setBeat (sampleCursorApi True) (Some zeroBeat) new_cursor) = None
      \<or> beatDuration (setBeat (sampleCursorApi True) (Some zeroBeat) new_cursor) \<le> 0)
   \<and> setTick (sampleCursorApi True) 0 9700 (Some beat2) (Some 9600)
         (setBeat (sampleCursorApi True) (Some zeroBeat) new_cursor)
       = setBeat (sampleCursorApi True) (Some zeroBeat) new_cursor"
proof -
  have d: "beatDuration (setBeat (sampleCursorApi True) (Some zeroBeat) new_cursor) \<le> 0"
    by (simp add: setBeat_def sampleCursorApi_def sampleBounds_def zeroBeat_def durOf_def Let_def)
  then have h: "currentBeat (setBeat (sampleCursorApi True) (Some zeroBeat) new_cursor) = None
      \<or> beatDuration (setBeat (sampleCursorApi True) (Some zeroBeat) new_cursor) \<le> 0" by simp
  show ?thesis using h setTick_malformed_beat_noop [OF h] by simp
qed


subsection \<open>\<open>setBeat(null)\<close>\<close>

text \<open>
  C10. \<open>setBeat(null)\<close> hides the cursor (visibility hidden, opacity 0) and changes no
  other field: the current beat, the beat start and duration, the frozen next anchor and
  the cached geometry stay as they were. A later \<open>setTick\<close> therefore computes the same
  position from the frozen beat state as it would have without the call, and the
  cursor stays hidden.
\<close>

theorem setBeat_null_only_hides:
  "setBeat api None s = s\<lparr> el_visibility := ''hidden'', el_opacity := ''0'' \<rparr>
   \<and> currentBeat (setBeat api None s) = currentBeat s
   \<and> beatStart (setBeat api None s) = beatStart s
   \<and> beatDuration (setBeat api None s) = beatDuration s
   \<and> nextBeatCenterX (setBeat api None s) = nextBeatCenterX s
   \<and> currentNoteX (setBeat api None s) = currentNoteX s
   \<and> currentY (setBeat api None s) = currentY s
   \<and> currentHeight (setBeat api None s) = currentHeight s
   \<and> currentVbW (setBeat api None s) = currentVbW s
   \<and> finalXOf api' tick (tickState api' nb ov (setBeat api None s)) = finalXOf api' tick (tickState api' nb ov s)
   \<and> setTick api' now tick nb ov (setBeat api None s)
       = (setTick api' now tick nb ov s)\<lparr> el_visibility := ''hidden'', el_opacity := ''0'' \<rparr>"
proof -
  have a: "setBeat api None s = hide s" by (simp add: setBeat_def)
  have b: "hide (setTick api' now tick nb ov s) = (setTick api' now tick nb ov s)\<lparr> el_visibility := ''hidden'', el_opacity := ''0'' \<rparr>"
    by (simp add: hide_def)
  show ?thesis
    unfolding a by (simp add: hide_setTick_commute tickState_hide b) (simp add: hide_def)
qed

subsection \<open>What each stage of \<open>setTick\<close> leaves alone\<close>

lemma useBeatStart_fields [simp]:
  "nextBeatCenterX (useBeatStart ov s) = nextBeatCenterX s"
  "currentNoteX (useBeatStart ov s) = currentNoteX s"
  "currentY (useBeatStart ov s) = currentY s"
  "currentBeat (useBeatStart ov s) = currentBeat s"
  "beatDuration (useBeatStart ov s) = beatDuration s"
  "currentVbW (useBeatStart ov s) = currentVbW s"
  "el_transform (useBeatStart ov s) = el_transform s"
  "beatStartToUse (useBeatStart ov s) = (case ov of Some v \<Rightarrow> v | None \<Rightarrow> beatStart s)"
  by (simp_all add: useBeatStart_def)

lemma fill_fields [simp]:
  "currentNoteX (fillNextBeatCenterX api cur n s) = currentNoteX s"
  "currentY (fillNextBeatCenterX api cur n s) = currentY s"
  "currentBeat (fillNextBeatCenterX api cur n s) = currentBeat s"
  "beatDuration (fillNextBeatCenterX api cur n s) = beatDuration s"
  "currentVbW (fillNextBeatCenterX api cur n s) = currentVbW s"
  "beatStartToUse (fillNextBeatCenterX api cur n s) = beatStartToUse s"
  "el_transform (fillNextBeatCenterX api cur n s) = el_transform s"
  by (simp_all add: fillNextBeatCenterX_def Let_def split: option.split)

lemma fillIfNull_fields [simp]:
  "currentNoteX (fillIfNull api nb s) = currentNoteX s"
  "currentY (fillIfNull api nb s) = currentY s"
  "currentBeat (fillIfNull api nb s) = currentBeat s"
  "beatDuration (fillIfNull api nb s) = beatDuration s"
  "currentVbW (fillIfNull api nb s) = currentVbW s"
  "beatStartToUse (fillIfNull api nb s) = beatStartToUse s"
  "el_transform (fillIfNull api nb s) = el_transform s"
  by (cases nb; simp add: fillIfNull_def)+

lemma tickState_fields [simp]:
  "currentNoteX (tickState api nb ov s) = currentNoteX s"
  "currentY (tickState api nb ov s) = currentY s"
  "currentBeat (tickState api nb ov s) = currentBeat s"
  "beatDuration (tickState api nb ov s) = beatDuration s"
  "currentVbW (tickState api nb ov s) = currentVbW s"
  "el_transform (tickState api nb ov s) = el_transform s"
  "beatStartToUse (tickState api nb ov s) = (case ov of Some v \<Rightarrow> v | None \<Rightarrow> beatStart s)"
  by (simp_all add: tickState_def)

lemma fill_next_cases:
  "nextBeatCenterX (fillNextBeatCenterX api cur n s) = nextBeatCenterX s
   \<or> (\<exists>v. nextBeatCenterX (fillNextBeatCenterX api cur n s) = Some v)"
  by (simp add: fillNextBeatCenterX_def Let_def split: option.split)

lemma fillIfNull_next_cases:
  "nextBeatCenterX (fillIfNull api nb s) = nextBeatCenterX s
   \<or> (nextBeatCenterX s = None \<and> (\<exists>v. nextBeatCenterX (fillIfNull api nb s) = Some v))"
  using fill_next_cases [of api "currentBeat s" _ s]
  by (cases nb) (auto simp add: fillIfNull_def)

lemma tickState_next_cases:
  "nextBeatCenterX (tickState api nb ov s) = nextBeatCenterX s
   \<or> (nextBeatCenterX s = None \<and> (\<exists>v. nextBeatCenterX (tickState api nb ov s) = Some v))"
  using fillIfNull_next_cases [of api nb "useBeatStart ov s"] by (simp add: tickState_def)

lemma applyTransform_fields [simp]:
  "nextBeatCenterX (applyTransform x y h snap s) = nextBeatCenterX s"
  "currentNoteX (applyTransform x y h snap s) = currentNoteX s"
  "currentY (applyTransform x y h snap s) = currentY s"
  "currentBeat (applyTransform x y h snap s) = currentBeat s"
  "beatDuration (applyTransform x y h snap s) = beatDuration s"
  by (simp_all add: applyTransform_def Let_def)

lemma applyTransform_transform:
  "el_transform (applyTransform x y h snap s) = (if suppressed x y s then el_transform s else Translate3d x y)"
  by (simp add: applyTransform_def Let_def)

lemma throttledLog_fields [simp]:
  "nextBeatCenterX (throttledLog s) = nextBeatCenterX s"
  "currentNoteX (throttledLog s) = currentNoteX s"
  "currentY (throttledLog s) = currentY s"
  "currentBeat (throttledLog s) = currentBeat s"
  "beatDuration (throttledLog s) = beatDuration s"
  "el_transform (throttledLog s) = el_transform s"
  by (simp_all add: throttledLog_def)

lemma throttledDebugLabel_fields [simp]:
  "nextBeatCenterX (throttledDebugLabel now x p s) = nextBeatCenterX s"
  "currentNoteX (throttledDebugLabel now x p s) = currentNoteX s"
  "currentY (throttledDebugLabel now x p s) = currentY s"
  "currentBeat (throttledDebugLabel now x p s) = currentBeat s"
  "beatDuration (throttledDebugLabel now x p s) = beatDuration s"
  "el_transform (throttledDebugLabel now x p s) = el_transform s"
  by (simp_all add: throttledDebugLabel_def)

lemma setTick_next:
  "nextBeatCenterX (setTick api now tick nb ov s) =
     (if currentBeat s = None \<or> beatDuration s \<le> 0 then nextBeatCenterX s
      else nextBeatCenterX (tickState api nb ov s))"
  by (simp add: setTick_def Let_def)

lemma setTick_anchor [simp]: "currentNoteX (setTick api now tick nb ov s) = currentNoteX s"
  by (simp add: setTick_def Let_def)

lemma setTick_transform:
  "el_transform (setTick api now tick nb ov s) =
     (if currentBeat s = None \<or> beatDuration s \<le> 0 then el_transform s
      else if suppressed (finalXOf api tick (tickState api nb ov s)) (finalYOf (tickState api nb ov s))
                (tickState api nb ov s)
           then el_transform s
           else Translate3d (finalXOf api tick (tickState api nb ov s)) (finalYOf (tickState api nb ov s)))"
  by (simp add: setTick_def Let_def applyTransform_transform)

lemma setTick_next_cases:
  "nextBeatCenterX (setTick api now tick nb ov s) = nextBeatCenterX s
   \<or> (nextBeatCenterX s = None \<and> (\<exists>v. nextBeatCenterX (setTick api now tick nb ov s) = Some v))"
  using tickState_next_cases [of api nb ov s] by (auto simp add: setTick_next)

lemma setTicks_Nil [simp]: "setTicks [] s = s"
  by (simp add: setTicks_def)

lemma setTicks_Cons [simp]:
  "setTicks ((api, now, tick, nb, ov) # calls) s = setTicks calls (setTick api now tick nb ov s)"
  by (simp add: setTicks_def)

lemma setTicks_keeps_value:
  "nextBeatCenterX s = Some v \<Longrightarrow> nextBeatCenterX (setTicks calls s) = Some v"
proof (induction calls arbitrary: s)
  case Nil
  then show ?case by simp
next
  case (Cons c calls)
  obtain api now tick nb ov where c: "c = (api, now, tick, nb, ov)" by (cases c)
  have "nextBeatCenterX (setTick api now tick nb ov s) = Some v"
    using setTick_next_cases [of api now tick nb ov s] Cons.prems by auto
  then show ?case using Cons.IH c by simp
qed

lemma setTicks_anchor [simp]: "currentNoteX (setTicks calls s) = currentNoteX s"
proof (induction calls arbitrary: s)
  case Nil
  then show ?case by simp
next
  case (Cons c calls)
  obtain api now tick nb ov where c: "c = (api, now, tick, nb, ov)" by (cases c)
  show ?case using Cons.IH c by simp
qed

lemma setTick_mode_switch:
  assumes "\<not> modeA s" and "modeA (setTick api now tick nb ov s)"
  shows "nextBeatCenterX s = None \<and> nb \<noteq> None"
proof -
  have n: "nextBeatCenterX s = None"
  proof (cases "nextBeatCenterX s")
    case None
    then show ?thesis .
  next
    case (Some v)
    then have "nextBeatCenterX (setTick api now tick nb ov s) = Some v"
      using setTick_next_cases [of api now tick nb ov s] by auto
    then have "modeA (setTick api now tick nb ov s) = modeA s" using Some by (simp add: modeA_def)
    then show ?thesis using assms by simp
  qed
  have "nb \<noteq> None"
  proof
    assume "nb = None"
    then have "nextBeatCenterX (setTick api now tick nb ov s) = None"
      using n by (simp add: setTick_next tickState_def fillIfNull_def)
    then show False using assms(2) by (simp add: modeA_def)
  qed
  with n show ?thesis by simp
qed

subsection \<open>The frozen next anchor\<close>

text \<open>
  C7, as the code has it. Between a \<open>setBeat(beat)\<close> call and the next \<open>setBeat\<close> or
  \<open>requestSnap\<close> only \<open>setTick\<close> runs. A \<open>setTick\<close> call leaves \<open>nextBeatCenterX\<close> as it is or
  takes it from \<open>null\<close> to a value; it never clears or replaces a value. So over any run of
  \<open>setTick\<close> calls, with whatever arguments and renderer state, an established value stays,
  and a walk in Mode A stays in Mode A. A walk in Mode B can change to Mode A in the middle
  of the beat, and only in one way: the field was still \<open>null\<close> and the call passed a next
  beat.
\<close>

theorem nextBeatCenterX_fill_never_clear:
  "(nextBeatCenterX (setTick api now tick nb ov s) = nextBeatCenterX s
      \<or> (nextBeatCenterX s = None \<and> (\<exists>v. nextBeatCenterX (setTick api now tick nb ov s) = Some v)))
   \<and> (nextBeatCenterX s = Some v \<longrightarrow> nextBeatCenterX (setTicks calls s) = Some v)
   \<and> (modeA s \<longrightarrow> modeA (setTicks calls s))
   \<and> (\<not> modeA s \<and> modeA (setTick api now tick nb ov s) \<longrightarrow> nextBeatCenterX s = None \<and> nb \<noteq> None)"
proof -
  have "modeA (setTicks calls s)" if "modeA s"
  proof -
    from that obtain n where n: "nextBeatCenterX s = Some n" "n > currentNoteX s"
      by (auto simp add: modeA_def split: option.splits)
    then show ?thesis using setTicks_keeps_value [OF n(1), of calls] by (simp add: modeA_def)
  qed
  then show ?thesis using setTick_next_cases [of api now tick nb ov s] setTicks_keeps_value [of s v calls]
      setTick_mode_switch [of s api now tick nb ov]
    by blast
qed


lemma show_cursor_fields [simp]:
  "nextBeatCenterX (show_cursor s) = nextBeatCenterX s"
  "currentNoteX (show_cursor s) = currentNoteX s"
  "currentY (show_cursor s) = currentY s"
  "currentBeat (show_cursor s) = currentBeat s"
  "beatDuration (show_cursor s) = beatDuration s"
  "beatStart (show_cursor s) = beatStart s"
  "el_transform (show_cursor s) = el_transform s"
  by (simp_all add: show_cursor_def)

lemma sample_entry_beat1:
  "nextBeatCenterX (setBeat (sampleCursorApi p) (Some beat1) new_cursor) = Some 160"
  "currentNoteX (setBeat (sampleCursorApi p) (Some beat1) new_cursor) = 110"
  by (simp_all add: setBeat_def Let_def sampleCursorApi_def sampleBounds_def beat1_def beat2_def
      fillNextBeatCenterX_def anchorOf_def barIdx_def new_cursor_def)

lemma sample_entry_alone:
  "setBeat (sampleCursorApi p) (Some beat1Alone) new_cursor =
     \<lparr> el_visibility = ''visible'', el_opacity = ''1'', el_transform = Translate3d 103 274,
       el_height = Some 120, el_transition = Some ''none'', el_svg = Some (120, 80), el_debugLabel = None,
       currentBeat = Some beat1Alone, currentNoteX = 110, currentY = 300, currentHeight = 80,
       currentVbW = 40, nextBeatCenterX = None, beatStart = 9600, beatDuration = 480,
       beatStartToUse = 9600, svgRendered = True, lastSvgHeight = 120, lastFinalX = 103,
       lastFinalY = 274, hasInitialPosition = True, lastLogBeat = -1, lastDebugUpdate = 0 \<rparr>"
  by (simp add: setBeat_def Let_def sampleCursorApi_def sampleBounds_def beat1Alone_def durOf_def
      anchorOf_def new_cursor_def applyTransform_def suppressed_def show_cursor_def
      cursorWidth_def topOverhang_def bottomOverhang_def bottomPointBaseShift_def)

lemma sample_fill_alone:
  "nextBeatCenterX (tickState (sampleCursorApi p) (Some beat2) (Some 9600)
       (setBeat (sampleCursorApi p) (Some beat1Alone) new_cursor)) = Some 160"
  unfolding sample_entry_alone
  by (simp add: tickState_def useBeatStart_def fillIfNull_def
      fillNextBeatCenterX_def sampleCursorApi_def sampleBounds_def anchorOf_def barIdx_def
      beat1Alone_def beat2_def Let_def)

lemma sample_alone_switch:
  "nextBeatCenterX (setBeat (sampleCursorApi True) (Some beat1Alone) new_cursor) = None"
  "\<not> modeA (setBeat (sampleCursorApi True) (Some beat1Alone) new_cursor)"
  "nextBeatCenterX (setTick (sampleCursorApi True) 0 9700 (Some beat2) (Some 9600)
        (setBeat (sampleCursorApi True) (Some beat1Alone) new_cursor)) = Some 160"
  "modeA (setTick (sampleCursorApi True) 0 9700 (Some beat2) (Some 9600)
        (setBeat (sampleCursorApi True) (Some beat1Alone) new_cursor))"
proof -
  have a: "nextBeatCenterX (setBeat (sampleCursorApi True) (Some beat1Alone) new_cursor) = None"
    "currentNoteX (setBeat (sampleCursorApi True) (Some beat1Alone) new_cursor) = 110"
    "currentBeat (setBeat (sampleCursorApi True) (Some beat1Alone) new_cursor) = Some beat1Alone"
    "beatDuration (setBeat (sampleCursorApi True) (Some beat1Alone) new_cursor) = 480"
    by (simp_all add: sample_entry_alone)
  have b: "nextBeatCenterX (setTick (sampleCursorApi True) 0 9700 (Some beat2) (Some 9600)
        (setBeat (sampleCursorApi True) (Some beat1Alone) new_cursor)) = Some 160"
    by (simp add: setTick_next a sample_fill_alone)
  show "nextBeatCenterX (setBeat (sampleCursorApi True) (Some beat1Alone) new_cursor) = None"
    by (rule a(1))
  show "\<not> modeA (setBeat (sampleCursorApi True) (Some beat1Alone) new_cursor)"
    using a by (simp add: modeA_def)
  show "nextBeatCenterX (setTick (sampleCursorApi True) 0 9700 (Some beat2) (Some 9600)
        (setBeat (sampleCursorApi True) (Some beat1Alone) new_cursor)) = Some 160"
    by (rule b)
  show "modeA (setTick (sampleCursorApi True) 0 9700 (Some beat2) (Some 9600)
        (setBeat (sampleCursorApi True) (Some beat1Alone) new_cursor))"
    using a b by (simp add: modeA_def)
qed

text \<open>
  Beat 1 entered with its structural next beat walks in Mode A towards x = 160 and keeps
  doing so over later calls; entered without it, the switch to Mode A comes from a call that
  passes a next beat while the field is still \<open>null\<close>.
\<close>

theorem nextBeatCenterX_fill_never_clear_witness:
  "nextBeatCenterX (setBeat (sampleCursorApi True) (Some beat1) new_cursor) = Some 160
   \<and> nextBeatCenterX (setTicks [(sampleCursorApi True, 0, 9700, Some beat4, Some 9600),
                                (sampleCursorApi False, 40, 9800, None, None)]
                        (setBeat (sampleCursorApi True) (Some beat1) new_cursor)) = Some 160
   \<and> modeA (setBeat (sampleCursorApi True) (Some beat1) new_cursor)
   \<and> modeA (setTicks [(sampleCursorApi True, 0, 9700, Some beat4, Some 9600),
                      (sampleCursorApi False, 40, 9800, None, None)]
              (setBeat (sampleCursorApi True) (Some beat1) new_cursor))
   \<and> modeA (setTick (sampleCursorApi True) 0 9700 (Some beat2) (Some 9600)
        (setBeat (sampleCursorApi True) (Some beat1Alone) new_cursor))
   \<and> nextBeatCenterX (setBeat (sampleCursorApi True) (Some beat1Alone) new_cursor) = None
   \<and> Some beat2 \<noteq> None"
proof -
  have m: "modeA (setBeat (sampleCursorApi True) (Some beat1) new_cursor)"
    by (simp add: modeA_def sample_entry_beat1)
  have first: "nextBeatCenterX (setBeat (sampleCursorApi True) (Some beat1) new_cursor) = Some 160
   \<and> nextBeatCenterX (setTicks [(sampleCursorApi True, 0, 9700, Some beat4, Some 9600),
                                (sampleCursorApi False, 40, 9800, None, None)]
                        (setBeat (sampleCursorApi True) (Some beat1) new_cursor)) = Some 160
   \<and> modeA (setBeat (sampleCursorApi True) (Some beat1) new_cursor)
   \<and> modeA (setTicks [(sampleCursorApi True, 0, 9700, Some beat4, Some 9600),
                      (sampleCursorApi False, 40, 9800, None, None)]
              (setBeat (sampleCursorApi True) (Some beat1) new_cursor))"
    using nextBeatCenterX_fill_never_clear
      [of "sampleCursorApi True" 0 9700 "Some beat4" "Some 9600"
          "setBeat (sampleCursorApi True) (Some beat1) new_cursor" 160
          "[(sampleCursorApi True, 0, 9700, Some beat4, Some 9600),
            (sampleCursorApi False, 40, 9800, None, None)]"]
      m sample_entry_beat1(1) [of True]
    by blast
  have second: "nextBeatCenterX (setBeat (sampleCursorApi True) (Some beat1Alone) new_cursor) = None
   \<and> Some beat2 \<noteq> None"
    using nextBeatCenterX_fill_never_clear
      [of "sampleCursorApi True" 0 9700 "Some beat2" "Some 9600"
          "setBeat (sampleCursorApi True) (Some beat1Alone) new_cursor" 0 "[]"]
      sample_alone_switch(2,4)
    by blast
  from first second sample_alone_switch(4) show ?thesis by blast
qed

text \<open>
  The walk mode chosen at beat entry does not always last for the beat. A beat entered
  without a structural next beat starts in Mode B; the first \<open>setTick\<close> that passes the
  scanned next beat fills the anchor, and the walk is in Mode A from then on, with no
  \<open>setBeat\<close> or \<open>requestSnap\<close> in between.
\<close>

theorem nextBeatCenterX_fill_never_clear_counterexample:
  "nextBeatCenterX (setBeat (sampleCursorApi True) (Some beat1Alone) new_cursor) = None
   \<and> \<not> modeA (setBeat (sampleCursorApi True) (Some beat1Alone) new_cursor)
   \<and> nextBeatCenterX (setTick (sampleCursorApi True) 0 9700 (Some beat2) (Some 9600)
        (setBeat (sampleCursorApi True) (Some beat1Alone) new_cursor)) = Some 160
   \<and> modeA (setTick (sampleCursorApi True) 0 9700 (Some beat2) (Some 9600)
        (setBeat (sampleCursorApi True) (Some beat1Alone) new_cursor))"
  using sample_alone_switch by simp

subsection \<open>Interpolation\<close>

lemma progressOf_bounds: "0 \<le> progressOf tick s" "progressOf tick s \<le> 1"
  by (simp_all add: progressOf_def)

lemma progressOf_tickState:
  "beatDuration s > 0 \<Longrightarrow>
   progressOf tick (tickState api nb ov s) =
     max 0 (min 1 (real_of_int (tick - (case ov of Some v \<Rightarrow> v | None \<Rightarrow> beatStart s))
                    / real_of_int (beatDuration s)))"
  by (simp add: progressOf_def)

lemma modeA_walk_within:
  assumes "modeA s"
  shows "currentNoteX s + walkDistance api s * progressOf tick s \<le> the (nextBeatCenterX s)"
proof -
  from assms obtain nx where nx: "nextBeatCenterX s = Some nx" "nx > currentNoteX s"
    by (auto simp add: modeA_def split: option.splits)
  have "(nx - currentNoteX s) * progressOf tick s \<le> nx - currentNoteX s"
    using nx(2) progressOf_bounds(2) [of tick s] by (intro mult_left_le) simp_all
  then have "currentNoteX s + (nx - currentNoteX s) * progressOf tick s \<le> nx" by linarith
  moreover have "walkDistance api s = nx - currentNoteX s"
    using assms nx by (simp add: walkDistance_def)
  ultimately show ?thesis using nx by simp
qed

lemma interpolatedX_running:
  assumes "isPlaying api = Some True \<or> progressOf tick s < 0.999"
  shows "interpolatedX api tick s = currentNoteX s + walkDistance api s * progressOf tick s"
proof (cases "modeA s")
  case True
  then show ?thesis using assms modeA_walk_within [OF True, of api tick]
    by (auto simp add: interpolatedX_def Let_def)
next
  case False
  then show ?thesis using assms by (auto simp add: interpolatedX_def Let_def)
qed

lemma interpolatedX_paused:
  assumes "isPlaying api \<noteq> Some True" and "progressOf tick s \<ge> 0.999"
  shows "interpolatedX api tick s = currentNoteX s"
  using assms by (cases "isPlaying api") (auto simp add: interpolatedX_def Let_def)

lemma interpolatedX_le_next:
  assumes "nextBeatCenterX s = Some nx" and "nx > currentNoteX s"
  shows "interpolatedX api tick s \<le> nx"
proof -
  have "modeA s" using assms by (simp add: modeA_def)
  then show ?thesis using assms by (auto simp add: interpolatedX_def Let_def)
qed

lemma walkDistance_cases:
  "nextBeatCenterX s = Some nx \<Longrightarrow> nx > currentNoteX s \<Longrightarrow> walkDistance api s = nx - currentNoteX s"
  "\<not> modeA s \<Longrightarrow> findMasterBar api (case currentBeat s of None \<Rightarrow> None | Some b \<Rightarrow> masterBar b) = Some vb
     \<Longrightarrow> walkDistance api s = (rx vb + rw vb) - currentNoteX s"
  "\<not> modeA s \<Longrightarrow> findMasterBar api (case currentBeat s of None \<Rightarrow> None | Some b \<Rightarrow> masterBar b) = None
     \<Longrightarrow> walkDistance api s = currentVbW s"
  by (simp_all add: walkDistance_def modeA_def)

lemma setTick_transform_live:
  assumes "currentBeat s \<noteq> None" and "beatDuration s > 0"
  shows "el_transform (setTick api now tick nb ov s) =
     (if suppressed (finalXOf api tick (tickState api nb ov s)) (finalYOf (tickState api nb ov s))
           (tickState api nb ov s)
      then el_transform s
      else Translate3d (interpolatedX api tick (tickState api nb ov s) - 7) (currentY s - 26))"
  using assms
  by (cases "currentBeat s")
     (simp_all add: setTick_transform finalXOf_def finalYOf_def cursorWidth_def topOverhang_def)

text \<open>
  C5, as the code has it. For every \<open>setTick(tick, nextBeat, overrideBeatStart)\<close> call with a
  current beat of positive duration, the progress is
  clamp01((tick - frozenBeatStart) / beatDuration), where the frozen beat start is the
  override, or the beat's own start when there is none. While the transport is playing, or
  the progress is below 0.999, the interpolated cursor centre is
  anchor + progress * (target - anchor): the anchor is the current note anchor X; the
  target is the next-beat anchor X in Mode A (a next anchor is set and lies to the right of
  the anchor), the right edge of the bar in Mode B when the bar has bounds, and
  anchor + the visual width of the beat when it has none. In Mode A the centre never
  exceeds the next-beat anchor X, whatever the tick. The element is moved to that centre
  minus half the cursor width unless the sub-pixel filter drops the update.
\<close>

theorem setTick_interpolation:
  assumes "currentBeat s \<noteq> None" and "beatDuration s > 0"
  shows
   "progressOf tick (tickState api nb ov s) =
      max 0 (min 1 (real_of_int (tick - (case ov of Some v \<Rightarrow> v | None \<Rightarrow> beatStart s))
                     / real_of_int (beatDuration s)))
    \<and> (\<forall>nx. nextBeatCenterX (tickState api nb ov s) = Some nx \<and> nx > currentNoteX s \<longrightarrow>
           interpolatedX api tick (tickState api nb ov s) \<le> nx
           \<and> (isPlaying api = Some True \<or> progressOf tick (tickState api nb ov s) < 0.999 \<longrightarrow>
                interpolatedX api tick (tickState api nb ov s) =
                  currentNoteX s + progressOf tick (tickState api nb ov s) * (nx - currentNoteX s)))
    \<and> (\<forall>vb. \<not> modeA (tickState api nb ov s)
             \<and> findMasterBar api (case currentBeat s of None \<Rightarrow> None | Some b \<Rightarrow> masterBar b) = Some vb
             \<and> (isPlaying api = Some True \<or> progressOf tick (tickState api nb ov s) < 0.999) \<longrightarrow>
           interpolatedX api tick (tickState api nb ov s) =
             currentNoteX s + progressOf tick (tickState api nb ov s) * ((rx vb + rw vb) - currentNoteX s))
    \<and> (\<not> modeA (tickState api nb ov s)
         \<and> findMasterBar api (case currentBeat s of None \<Rightarrow> None | Some b \<Rightarrow> masterBar b) = None
         \<and> (isPlaying api = Some True \<or> progressOf tick (tickState api nb ov s) < 0.999) \<longrightarrow>
           interpolatedX api tick (tickState api nb ov s) =
             currentNoteX s + progressOf tick (tickState api nb ov s) * currentVbW s)
    \<and> el_transform (setTick api now tick nb ov s) =
        (if suppressed (finalXOf api tick (tickState api nb ov s)) (finalYOf (tickState api nb ov s))
              (tickState api nb ov s)
         then el_transform s
         else Translate3d (interpolatedX api tick (tickState api nb ov s) - 7) (currentY s - 26))"
proof (intro conjI allI impI)
  show "progressOf tick (tickState api nb ov s) =
      max 0 (min 1 (real_of_int (tick - (case ov of Some v \<Rightarrow> v | None \<Rightarrow> beatStart s))
                     / real_of_int (beatDuration s)))"
    using assms(2) by (rule progressOf_tickState)
next
  fix nx assume "nextBeatCenterX (tickState api nb ov s) = Some nx \<and> currentNoteX s < nx"
  then show "interpolatedX api tick (tickState api nb ov s) \<le> nx"
    using interpolatedX_le_next [of "tickState api nb ov s" nx api tick] by simp
next
  fix nx
  assume a: "nextBeatCenterX (tickState api nb ov s) = Some nx \<and> currentNoteX s < nx"
    and r: "isPlaying api = Some True \<or> progressOf tick (tickState api nb ov s) < 0.999"
  have "walkDistance api (tickState api nb ov s) = nx - currentNoteX s"
    using a walkDistance_cases(1) [of "tickState api nb ov s" nx api] by simp
  then show "interpolatedX api tick (tickState api nb ov s) =
      currentNoteX s + progressOf tick (tickState api nb ov s) * (nx - currentNoteX s)"
    using interpolatedX_running [OF r] by (simp add: mult.commute)
next
  fix vb
  assume a: "\<not> modeA (tickState api nb ov s)
     \<and> findMasterBar api (case currentBeat s of None \<Rightarrow> None | Some b \<Rightarrow> masterBar b) = Some vb
     \<and> (isPlaying api = Some True \<or> progressOf tick (tickState api nb ov s) < 0.999)"
  then have r: "isPlaying api = Some True \<or> progressOf tick (tickState api nb ov s) < 0.999" by simp
  have "walkDistance api (tickState api nb ov s) = (rx vb + rw vb) - currentNoteX s"
    using a walkDistance_cases(2) [of "tickState api nb ov s" api vb] by simp
  then show "interpolatedX api tick (tickState api nb ov s) =
      currentNoteX s + progressOf tick (tickState api nb ov s) * ((rx vb + rw vb) - currentNoteX s)"
    using interpolatedX_running [OF r] by (simp add: mult.commute)
next
  assume a: "\<not> modeA (tickState api nb ov s)
     \<and> findMasterBar api (case currentBeat s of None \<Rightarrow> None | Some b \<Rightarrow> masterBar b) = None
     \<and> (isPlaying api = Some True \<or> progressOf tick (tickState api nb ov s) < 0.999)"
  then have r: "isPlaying api = Some True \<or> progressOf tick (tickState api nb ov s) < 0.999" by simp
  have "walkDistance api (tickState api nb ov s) = currentVbW s"
    using a walkDistance_cases(3) [of "tickState api nb ov s" api] by simp
  then show "interpolatedX api tick (tickState api nb ov s) =
      currentNoteX s + progressOf tick (tickState api nb ov s) * currentVbW s"
    using interpolatedX_running [OF r] by (simp add: mult.commute)
next
  show "el_transform (setTick api now tick nb ov s) =
        (if suppressed (finalXOf api tick (tickState api nb ov s)) (finalYOf (tickState api nb ov s))
              (tickState api nb ov s)
         then el_transform s
         else Translate3d (interpolatedX api tick (tickState api nb ov s) - 7) (currentY s - 26))"
    using assms by (rule setTick_transform_live)
qed


lemma sample_entry_beat4:
  "setBeat (sampleCursorApi p) (Some beat4) new_cursor =
     \<lparr> el_visibility = ''visible'', el_opacity = ''1'', el_transform = Translate3d 253 274,
       el_height = Some 120, el_transition = Some ''none'', el_svg = Some (120, 80), el_debugLabel = None,
       currentBeat = Some beat4, currentNoteX = 260, currentY = 300, currentHeight = 80, currentVbW = 40,
       nextBeatCenterX = None, beatStart = 11040, beatDuration = 480, beatStartToUse = 11040,
       svgRendered = True, lastSvgHeight = 120, lastFinalX = 253, lastFinalY = 274,
       hasInitialPosition = True, lastLogBeat = -1, lastDebugUpdate = 0 \<rparr>"
  by (simp add: setBeat_def Let_def sampleCursorApi_def sampleBounds_def beat4_def durOf_def
      anchorOf_def new_cursor_def applyTransform_def suppressed_def show_cursor_def
      cursorWidth_def topOverhang_def bottomOverhang_def bottomPointBaseShift_def)


lemma sample_tickState_beat4:
  "tickState api None (Some 11040) (setBeat (sampleCursorApi p) (Some beat4) new_cursor)
     = setBeat (sampleCursorApi p) (Some beat4) new_cursor"
  by (simp add: sample_entry_beat4 tickState_def useBeatStart_def fillIfNull_def)

lemma sample_beat4_facts:
  "currentBeat (setBeat (sampleCursorApi p) (Some beat4) new_cursor) = Some beat4"
  "beatDuration (setBeat (sampleCursorApi p) (Some beat4) new_cursor) = 480"
  "\<not> modeA (setBeat (sampleCursorApi p) (Some beat4) new_cursor)"
  "nextBeatCenterX (setBeat (sampleCursorApi p) (Some beat4) new_cursor) = None"
  "progressOf 11280 (setBeat (sampleCursorApi p) (Some beat4) new_cursor) = 1 / 2"
  "progressOf 11520 (setBeat (sampleCursorApi p) (Some beat4) new_cursor) = 1"
  "currentNoteX (setBeat (sampleCursorApi p) (Some beat4) new_cursor) = 260"
  "currentY (setBeat (sampleCursorApi p) (Some beat4) new_cursor) = 300"
  "el_transform (setBeat (sampleCursorApi p) (Some beat4) new_cursor) = Translate3d 253 274"
  by (simp_all add: sample_entry_beat4 modeA_def progressOf_def)

lemma sample_bar_bounds:
  "findMasterBar (sampleCursorApi q) (masterBar beat4) = Some \<lparr> rx = 90, ry = 300, rw = 220, rh = 80 \<rparr>"
  by (simp add: sampleCursorApi_def beat4_def bar5_def)

lemma sample_playing: "isPlaying (sampleCursorApi q) = Some q"
  by (simp add: sampleCursorApi_def)

lemma sample_state_beat1:
  "setBeat (sampleCursorApi p) (Some beat1) new_cursor =
     \<lparr> el_visibility = ''visible'', el_opacity = ''1'', el_transform = Translate3d 103 274,
       el_height = Some 120, el_transition = Some ''none'', el_svg = Some (120, 80), el_debugLabel = None,
       currentBeat = Some beat1, currentNoteX = 110, currentY = 300, currentHeight = 80, currentVbW = 40,
       nextBeatCenterX = Some 160, beatStart = 9600, beatDuration = 480, beatStartToUse = 9600,
       svgRendered = True, lastSvgHeight = 120, lastFinalX = 103, lastFinalY = 274,
       hasInitialPosition = True, lastLogBeat = -1, lastDebugUpdate = 0 \<rparr>"
  by (simp add: setBeat_def Let_def sampleCursorApi_def sampleBounds_def beat1_def beat2_def durOf_def
      fillNextBeatCenterX_def barIdx_def
      anchorOf_def new_cursor_def applyTransform_def suppressed_def show_cursor_def
      cursorWidth_def topOverhang_def bottomOverhang_def bottomPointBaseShift_def)

lemma sample_tickState_beat1:
  "tickState (sampleCursorApi q) nb (Some 9600) (setBeat (sampleCursorApi p) (Some beat1) new_cursor)
     = setBeat (sampleCursorApi p) (Some beat1) new_cursor"
  by (cases nb) (simp_all add: sample_state_beat1 tickState_def useBeatStart_def fillIfNull_def)

lemma sample_beat1_facts:
  "currentBeat (setBeat (sampleCursorApi p) (Some beat1) new_cursor) = Some beat1"
  "beatDuration (setBeat (sampleCursorApi p) (Some beat1) new_cursor) = 480"
  "progressOf 9840 (setBeat (sampleCursorApi p) (Some beat1) new_cursor) = 1 / 2"
  "progressOf 12000 (setBeat (sampleCursorApi p) (Some beat1) new_cursor) = 1"
  "currentY (setBeat (sampleCursorApi p) (Some beat1) new_cursor) = 300"
  "el_transform (setBeat (sampleCursorApi p) (Some beat1) new_cursor) = Translate3d 103 274"
  by (simp_all add: sample_state_beat1 progressOf_def)

text \<open>
  The formula does not hold on every call: with the transport paused at the end of the last
  beat of the bar (Mode B, progress 1) the centre is the anchor, 260, where the formula
  gives the right edge of the bar, 310.
\<close>

theorem setTick_interpolation_counterexample:
  "currentBeat (setBeat (sampleCursorApi False) (Some beat4) new_cursor) \<noteq> None
   \<and> 0 < beatDuration (setBeat (sampleCursorApi False) (Some beat4) new_cursor)
   \<and> nextBeatCenterX (tickState (sampleCursorApi False) None (Some 11040)
                         (setBeat (sampleCursorApi False) (Some beat4) new_cursor)) = None
   \<and> findMasterBar (sampleCursorApi False) (masterBar beat4) = Some \<lparr> rx = 90, ry = 300, rw = 220, rh = 80 \<rparr>
   \<and> interpolatedX (sampleCursorApi False) 11520
        (tickState (sampleCursorApi False) None (Some 11040)
           (setBeat (sampleCursorApi False) (Some beat4) new_cursor)) = 260
   \<and> currentNoteX (setBeat (sampleCursorApi False) (Some beat4) new_cursor)
       + max 0 (min 1 (real_of_int (11520 - 11040)
                        / real_of_int (beatDuration (setBeat (sampleCursorApi False) (Some beat4) new_cursor))))
         * ((90 + 220) - currentNoteX (setBeat (sampleCursorApi False) (Some beat4) new_cursor)) = 310"
proof -
  have "interpolatedX (sampleCursorApi False) 11520
          (setBeat (sampleCursorApi False) (Some beat4) new_cursor) = 260"
    using interpolatedX_paused [of "sampleCursorApi False" 11520
        "setBeat (sampleCursorApi False) (Some beat4) new_cursor"]
    by (simp add: sample_beat4_facts sample_playing)
  then show ?thesis
    by (simp add: sample_tickState_beat4 sample_beat4_facts sample_bar_bounds)
qed


lemma sample_beat1_next:
  "nextBeatCenterX (setBeat (sampleCursorApi p) (Some beat1) new_cursor) = Some 160"
  "currentNoteX (setBeat (sampleCursorApi p) (Some beat1) new_cursor) = 110"
  "lastFinalX (setBeat (sampleCursorApi p) (Some beat1) new_cursor) = 103"
  "lastFinalY (setBeat (sampleCursorApi p) (Some beat1) new_cursor) = 274"
  by (simp_all add: sample_state_beat1)

lemma sample_beat4_last:
  "lastFinalX (setBeat (sampleCursorApi p) (Some beat4) new_cursor) = 253"
  "lastFinalY (setBeat (sampleCursorApi p) (Some beat4) new_cursor) = 274"
  by (simp_all add: sample_entry_beat4)

theorem setTick_interpolation_witness:
  "interpolatedX (sampleCursorApi True) 9840
      (tickState (sampleCursorApi True) (Some beat4) (Some 9600)
         (setBeat (sampleCursorApi True) (Some beat1) new_cursor)) = 135
   \<and> interpolatedX (sampleCursorApi True) 12000
      (tickState (sampleCursorApi True) (Some beat4) (Some 9600)
         (setBeat (sampleCursorApi True) (Some beat1) new_cursor)) \<le> 160
   \<and> interpolatedX (sampleCursorApi True) 11280
      (tickState (sampleCursorApi True) None (Some 11040)
         (setBeat (sampleCursorApi True) (Some beat4) new_cursor)) = 285
   \<and> el_transform (setTick (sampleCursorApi True) 0 11280 None (Some 11040)
         (setBeat (sampleCursorApi True) (Some beat4) new_cursor)) = Translate3d 278 274"
proof -
  have a: "interpolatedX (sampleCursorApi True) 9840
      (tickState (sampleCursorApi True) (Some beat4) (Some 9600)
         (setBeat (sampleCursorApi True) (Some beat1) new_cursor)) = 135"
    using setTick_interpolation [of "setBeat (sampleCursorApi True) (Some beat1) new_cursor"
        9840 "sampleCursorApi True" "Some beat4" "Some 9600" 0]
    by (simp add: sample_tickState_beat1 sample_beat1_facts sample_beat1_next sample_playing)
  have b: "interpolatedX (sampleCursorApi True) 12000
      (tickState (sampleCursorApi True) (Some beat4) (Some 9600)
         (setBeat (sampleCursorApi True) (Some beat1) new_cursor)) \<le> 160"
    using setTick_interpolation [of "setBeat (sampleCursorApi True) (Some beat1) new_cursor"
        12000 "sampleCursorApi True" "Some beat4" "Some 9600" 0]
    by (simp add: sample_tickState_beat1 sample_beat1_facts sample_beat1_next sample_playing)
  have c: "interpolatedX (sampleCursorApi True) 11280
      (tickState (sampleCursorApi True) None (Some 11040)
         (setBeat (sampleCursorApi True) (Some beat4) new_cursor)) = 285"
    using setTick_interpolation [of "setBeat (sampleCursorApi True) (Some beat4) new_cursor"
        11280 "sampleCursorApi True" None "Some 11040" 0]
    by (simp add: sample_tickState_beat4 sample_beat4_facts sample_bar_bounds sample_playing)
  have d: "el_transform (setTick (sampleCursorApi True) 0 11280 None (Some 11040)
         (setBeat (sampleCursorApi True) (Some beat4) new_cursor)) = Translate3d 278 274"
    using setTick_interpolation [of "setBeat (sampleCursorApi True) (Some beat4) new_cursor"
        11280 "sampleCursorApi True" None "Some 11040" 0] c
    by (simp add: sample_tickState_beat4 sample_beat4_facts sample_bar_bounds sample_playing
        suppressed_def finalXOf_def finalYOf_def sample_beat4_last cursorWidth_def topOverhang_def)
  from a b c d show ?thesis by simp
qed


subsection \<open>The pause clamp\<close>

lemma fill_last:
  "lastFinalX (fillNextBeatCenterX api cur n s) = lastFinalX s"
  "lastFinalY (fillNextBeatCenterX api cur n s) = lastFinalY s"
  "el_transform (fillNextBeatCenterX api cur n s) = el_transform s"
  by (simp_all add: fillNextBeatCenterX_def Let_def split: option.split)

lemma tickState_last:
  "lastFinalX (tickState api nb ov s) = lastFinalX s"
  "lastFinalY (tickState api nb ov s) = lastFinalY s"
  by (cases nb; simp add: tickState_def fillIfNull_def useBeatStart_def fill_last)+

lemma tickState_suppressed:
  "suppressed x y (tickState api nb ov s) = suppressed x y s"
  by (simp add: suppressed_def tickState_last)

lemma applyTransform_recorded:
  assumes "el_transform s = Translate3d (lastFinalX s) (lastFinalY s)"
  shows "el_transform (applyTransform x y h snap s)
     = Translate3d (lastFinalX (applyTransform x y h snap s)) (lastFinalY (applyTransform x y h snap s))"
  using assms by (simp add: applyTransform_def Let_def)

lemma setTick_recorded:
  assumes "el_transform s = Translate3d (lastFinalX s) (lastFinalY s)"
  shows "el_transform (setTick api now tick nb ov s)
     = Translate3d (lastFinalX (setTick api now tick nb ov s)) (lastFinalY (setTick api now tick nb ov s))"
proof -
  have t: "el_transform (tickState api nb ov s)
      = Translate3d (lastFinalX (tickState api nb ov s)) (lastFinalY (tickState api nb ov s))"
    using assms by (simp add: tickState_last)
  show ?thesis
    using assms applyTransform_recorded [OF t]
    by (simp add: setTick_def Let_def throttledLog_def throttledDebugLabel_def)
qed

lemma setBeat_recorded:
  assumes "el_transform s = Translate3d (lastFinalX s) (lastFinalY s)"
  shows "el_transform (setBeat api bo s)
     = Translate3d (lastFinalX (setBeat api bo s)) (lastFinalY (setBeat api bo s))"
  using assms
  by (simp add: setBeat_def Let_def hide_def show_cursor_def applyTransform_def fill_last
      split: option.split)

text \<open>
  C6, as the code has it. When the transport is not playing and the progress is at least
  0.999, the cursor centre computed by \<open>setTick\<close> is the anchor X of the current beat, not
  the interpolated target, and the element is moved to the anchor minus half the cursor
  width, unless \<open>applyTransform\<close> drops the update because it lies less than half a pixel
  from the recorded last position in both axes; then the element stays where it is. When
  the recorded last position is the position of the element (as after every update that
  was applied; see \<open>setTick_recorded\<close> and \<open>setBeat_recorded\<close>), the element therefore rests
  within half a pixel of the anchor position in both axes. In particular, paused at
  progress 1 in Mode B the cursor is then drawn at the anchor and not at the right edge of
  the bar.
\<close>

theorem setTick_pause_clamp:
  assumes "currentBeat s \<noteq> None" and "beatDuration s > 0"
    and "isPlaying api \<noteq> Some True"
    and "progressOf tick (tickState api nb ov s) \<ge> 0.999"
  shows "interpolatedX api tick (tickState api nb ov s) = currentNoteX s
     \<and> el_transform (setTick api now tick nb ov s) =
         (if suppressed (currentNoteX s - 7) (currentY s - 26) s
          then el_transform s
          else Translate3d (currentNoteX s - 7) (currentY s - 26))
     \<and> (el_transform s = Translate3d (lastFinalX s) (lastFinalY s) \<longrightarrow>
          (\<exists>x y. el_transform (setTick api now tick nb ov s) = Translate3d x y
             \<and> \<bar>x - (currentNoteX s - 7)\<bar> < 0.5 \<and> \<bar>y - (currentY s - 26)\<bar> < 0.5))"
proof -
  have x: "interpolatedX api tick (tickState api nb ov s) = currentNoteX s"
    using interpolatedX_paused [OF assms(3) assms(4)] by simp
  have "finalXOf api tick (tickState api nb ov s) = currentNoteX s - 7"
    "finalYOf (tickState api nb ov s) = currentY s - 26"
    using x by (simp_all add: finalXOf_def finalYOf_def cursorWidth_def topOverhang_def)
  then have t: "el_transform (setTick api now tick nb ov s) =
         (if suppressed (currentNoteX s - 7) (currentY s - 26) s
          then el_transform s
          else Translate3d (currentNoteX s - 7) (currentY s - 26))"
    using x setTick_transform_live [OF assms(1) assms(2), of api now tick nb ov]
    by (simp add: tickState_suppressed)
  have "\<exists>x y. el_transform (setTick api now tick nb ov s) = Translate3d x y
             \<and> \<bar>x - (currentNoteX s - 7)\<bar> < 0.5 \<and> \<bar>y - (currentY s - 26)\<bar> < 0.5"
    if r: "el_transform s = Translate3d (lastFinalX s) (lastFinalY s)"
  proof (cases "suppressed (currentNoteX s - 7) (currentY s - 26) s")
    case True
    then have "\<bar>lastFinalX s - (currentNoteX s - 7)\<bar> < 0.5" "\<bar>lastFinalY s - (currentY s - 26)\<bar> < 0.5"
      by (simp_all add: suppressed_def abs_minus_commute)
    then show ?thesis using t True r by simp
  next
    case False
    then show ?thesis using t by simp
  qed
  with x t show ?thesis by blast
qed


lemma sample_walked_beat4:
  "setTick (sampleCursorApi True) 0 11280 None (Some 11040)
      (setBeat (sampleCursorApi True) (Some beat4) new_cursor) =
     \<lparr> el_visibility = ''visible'', el_opacity = ''1'', el_transform = Translate3d 278 274,
       el_height = Some 120, el_transition = Some ''none'', el_svg = Some (120, 80), el_debugLabel = None,
       currentBeat = Some beat4, currentNoteX = 260, currentY = 300, currentHeight = 80, currentVbW = 40,
       nextBeatCenterX = None, beatStart = 11040, beatDuration = 480, beatStartToUse = 11040,
       svgRendered = True, lastSvgHeight = 120, lastFinalX = 278, lastFinalY = 274,
       hasInitialPosition = True, lastLogBeat = 11040, lastDebugUpdate = 0 \<rparr>"
proof -
  have "interpolatedX (sampleCursorApi True) 11280
          (setBeat (sampleCursorApi True) (Some beat4) new_cursor) = 285"
    using interpolatedX_running [of "sampleCursorApi True" 11280
        "setBeat (sampleCursorApi True) (Some beat4) new_cursor"]
      walkDistance_cases(2) [of "setBeat (sampleCursorApi True) (Some beat4) new_cursor"
        "sampleCursorApi True" "\<lparr> rx = 90, ry = 300, rw = 220, rh = 80 \<rparr>"]
    by (simp add: sample_beat4_facts sample_bar_bounds sample_playing)
  then have "finalXOf (sampleCursorApi True) 11280
          (setBeat (sampleCursorApi True) (Some beat4) new_cursor) = 278"
    by (simp add: finalXOf_def cursorWidth_def)
  then show ?thesis
    by (simp add: setTick_def Let_def sample_tickState_beat4 sample_beat4_facts progressOf_def)
       (simp add: sample_entry_beat4 finalYOf_def totalHOf_def applyTransform_def suppressed_def
          throttledLog_def throttledDebugLabel_def topOverhang_def bottomOverhang_def
          bottomPointBaseShift_def)
qed


lemma sample_walked_facts:
  "currentBeat (setTick (sampleCursorApi True) 0 11280 None (Some 11040)
      (setBeat (sampleCursorApi True) (Some beat4) new_cursor)) = Some beat4"
  "beatDuration (setTick (sampleCursorApi True) 0 11280 None (Some 11040)
      (setBeat (sampleCursorApi True) (Some beat4) new_cursor)) = 480"
  "currentNoteX (setTick (sampleCursorApi True) 0 11280 None (Some 11040)
      (setBeat (sampleCursorApi True) (Some beat4) new_cursor)) = 260"
  "currentY (setTick (sampleCursorApi True) 0 11280 None (Some 11040)
      (setBeat (sampleCursorApi True) (Some beat4) new_cursor)) = 300"
  "nextBeatCenterX (setTick (sampleCursorApi True) 0 11280 None (Some 11040)
      (setBeat (sampleCursorApi True) (Some beat4) new_cursor)) = None"
  "el_transform (setTick (sampleCursorApi True) 0 11280 None (Some 11040)
      (setBeat (sampleCursorApi True) (Some beat4) new_cursor)) = Translate3d 278 274"
  "progressOf 11520 (tickState api None (Some 11040)
      (setTick (sampleCursorApi True) 0 11280 None (Some 11040)
         (setBeat (sampleCursorApi True) (Some beat4) new_cursor))) = 1"
  "suppressed 253 274 (tickState api None (Some 11040)
      (setTick (sampleCursorApi True) 0 11280 None (Some 11040)
         (setBeat (sampleCursorApi True) (Some beat4) new_cursor))) = False"
  by (simp_all add: sample_walked_beat4 tickState_def useBeatStart_def fillIfNull_def progressOf_def
      suppressed_def)

lemma sample_walked_last:
  "lastFinalX (setTick (sampleCursorApi True) 0 11280 None (Some 11040)
      (setBeat (sampleCursorApi True) (Some beat4) new_cursor)) = 278"
  "lastFinalY (setTick (sampleCursorApi True) 0 11280 None (Some 11040)
      (setBeat (sampleCursorApi True) (Some beat4) new_cursor)) = 274"
  by (simp_all add: sample_walked_beat4)

lemma sample_back_beat4:
  "setTick (sampleCursorApi True) 10 11044 None (Some 11040)
     (setTick (sampleCursorApi True) 0 11280 None (Some 11040)
        (setBeat (sampleCursorApi True) (Some beat4) new_cursor)) =
     \<lparr> el_visibility = ''visible'', el_opacity = ''1'', el_transform = Translate3d (3041 / 12) 274,
       el_height = Some 120, el_transition = Some ''none'', el_svg = Some (120, 80), el_debugLabel = None,
       currentBeat = Some beat4, currentNoteX = 260, currentY = 300, currentHeight = 80, currentVbW = 40,
       nextBeatCenterX = None, beatStart = 11040, beatDuration = 480, beatStartToUse = 11040,
       svgRendered = True, lastSvgHeight = 120, lastFinalX = 3041 / 12, lastFinalY = 274,
       hasInitialPosition = True, lastLogBeat = 11040, lastDebugUpdate = 0 \<rparr>"
  unfolding sample_walked_beat4
  by (simp add: setTick_def Let_def tickState_def useBeatStart_def fillIfNull_def progressOf_def
      finalXOf_def finalYOf_def totalHOf_def interpolatedX_def walkDistance_def modeA_def
      sample_bar_bounds sample_playing applyTransform_def suppressed_def
      throttledLog_def throttledDebugLabel_def cursorWidth_def topOverhang_def bottomOverhang_def
      bottomPointBaseShift_def)

lemma sample_back_facts:
  "currentBeat (setTick (sampleCursorApi True) 10 11044 None (Some 11040)
     (setTick (sampleCursorApi True) 0 11280 None (Some 11040)
        (setBeat (sampleCursorApi True) (Some beat4) new_cursor))) = Some beat4"
  "beatDuration (setTick (sampleCursorApi True) 10 11044 None (Some 11040)
     (setTick (sampleCursorApi True) 0 11280 None (Some 11040)
        (setBeat (sampleCursorApi True) (Some beat4) new_cursor))) = 480"
  "currentNoteX (setTick (sampleCursorApi True) 10 11044 None (Some 11040)
     (setTick (sampleCursorApi True) 0 11280 None (Some 11040)
        (setBeat (sampleCursorApi True) (Some beat4) new_cursor))) = 260"
  "currentY (setTick (sampleCursorApi True) 10 11044 None (Some 11040)
     (setTick (sampleCursorApi True) 0 11280 None (Some 11040)
        (setBeat (sampleCursorApi True) (Some beat4) new_cursor))) = 300"
  "nextBeatCenterX (setTick (sampleCursorApi True) 10 11044 None (Some 11040)
     (setTick (sampleCursorApi True) 0 11280 None (Some 11040)
        (setBeat (sampleCursorApi True) (Some beat4) new_cursor))) = None"
  "el_transform (setTick (sampleCursorApi True) 10 11044 None (Some 11040)
     (setTick (sampleCursorApi True) 0 11280 None (Some 11040)
        (setBeat (sampleCursorApi True) (Some beat4) new_cursor))) = Translate3d (3041 / 12) 274"
  "lastFinalX (setTick (sampleCursorApi True) 10 11044 None (Some 11040)
     (setTick (sampleCursorApi True) 0 11280 None (Some 11040)
        (setBeat (sampleCursorApi True) (Some beat4) new_cursor))) = 3041 / 12"
  "lastFinalY (setTick (sampleCursorApi True) 10 11044 None (Some 11040)
     (setTick (sampleCursorApi True) 0 11280 None (Some 11040)
        (setBeat (sampleCursorApi True) (Some beat4) new_cursor))) = 274"
  "progressOf 11520 (tickState api None (Some 11040)
     (setTick (sampleCursorApi True) 10 11044 None (Some 11040)
       (setTick (sampleCursorApi True) 0 11280 None (Some 11040)
         (setBeat (sampleCursorApi True) (Some beat4) new_cursor)))) = 1"
  by (simp_all add: sample_back_beat4 tickState_def useBeatStart_def fillIfNull_def progressOf_def)

lemma sample_back_paused:
  "el_transform (setTick (sampleCursorApi False) 40 11520 None (Some 11040)
     (setTick (sampleCursorApi True) 10 11044 None (Some 11040)
       (setTick (sampleCursorApi True) 0 11280 None (Some 11040)
         (setBeat (sampleCursorApi True) (Some beat4) new_cursor)))) = Translate3d (3041 / 12) 274"
  unfolding sample_back_beat4
  by (simp add: setTick_def Let_def tickState_def useBeatStart_def fillIfNull_def progressOf_def
      finalXOf_def finalYOf_def totalHOf_def interpolatedX_def walkDistance_def modeA_def
      sample_bar_bounds sample_playing applyTransform_def suppressed_def
      throttledLog_def throttledDebugLabel_def cursorWidth_def topOverhang_def bottomOverhang_def
      bottomPointBaseShift_def)

lemma corner_entry:
  "setBeat (cornerCursorApi p) (Some cornerBeat) new_cursor =
     \<lparr> el_visibility = ''visible'', el_opacity = ''1'', el_transform = Offscreen,
       el_height = None, el_transition = None, el_svg = None, el_debugLabel = None,
       currentBeat = Some cornerBeat, currentNoteX = 6, currentY = 25, currentHeight = 80, currentVbW = 12,
       nextBeatCenterX = None, beatStart = 0, beatDuration = 480, beatStartToUse = 0,
       svgRendered = False, lastSvgHeight = 0, lastFinalX = -1, lastFinalY = -1,
       hasInitialPosition = True, lastLogBeat = -1, lastDebugUpdate = 0 \<rparr>"
  by (simp add: setBeat_def Let_def cornerCursorApi_def cornerBeat_def durOf_def anchorOf_def
      new_cursor_def applyTransform_def suppressed_def show_cursor_def cursorWidth_def topOverhang_def)

lemma corner_bar:
  "findMasterBar (cornerCursorApi p) (Some bar0) = Some \<lparr> rx = 0, ry = 25, rw = 220, rh = 80 \<rparr>"
  "isPlaying (cornerCursorApi p) = Some p"
  "masterBar cornerBeat = Some bar0"
  by (simp_all add: cornerCursorApi_def bar0_def cornerBeat_def)

lemma corner_walked:
  "setTick (cornerCursorApi True) 0 480 None (Some 0)
     (setBeat (cornerCursorApi True) (Some cornerBeat) new_cursor) =
     \<lparr> el_visibility = ''visible'', el_opacity = ''1'', el_transform = Translate3d 213 (-1),
       el_height = Some 120, el_transition = None, el_svg = Some (120, 80), el_debugLabel = None,
       currentBeat = Some cornerBeat, currentNoteX = 6, currentY = 25, currentHeight = 80, currentVbW = 12,
       nextBeatCenterX = None, beatStart = 0, beatDuration = 480, beatStartToUse = 0,
       svgRendered = True, lastSvgHeight = 120, lastFinalX = 213, lastFinalY = -1,
       hasInitialPosition = True, lastLogBeat = 0, lastDebugUpdate = 0 \<rparr>"
  unfolding corner_entry
  by (simp add: setTick_def Let_def tickState_def useBeatStart_def fillIfNull_def progressOf_def
      finalXOf_def finalYOf_def totalHOf_def interpolatedX_def walkDistance_def modeA_def
      corner_bar applyTransform_def suppressed_def
      throttledLog_def throttledDebugLabel_def cursorWidth_def topOverhang_def bottomOverhang_def
      bottomPointBaseShift_def)

lemma corner_snapped:
  "requestSnap (setTick (cornerCursorApi True) 0 480 None (Some 0)
     (setBeat (cornerCursorApi True) (Some cornerBeat) new_cursor)) =
     \<lparr> el_visibility = ''visible'', el_opacity = ''1'', el_transform = Translate3d 213 (-1),
       el_height = Some 120, el_transition = None, el_svg = Some (120, 80), el_debugLabel = None,
       currentBeat = Some cornerBeat, currentNoteX = 6, currentY = 25, currentHeight = 80, currentVbW = 12,
       nextBeatCenterX = None, beatStart = 0, beatDuration = 480, beatStartToUse = 0,
       svgRendered = True, lastSvgHeight = 120, lastFinalX = -1, lastFinalY = -1,
       hasInitialPosition = True, lastLogBeat = 0, lastDebugUpdate = 0 \<rparr>"
  unfolding corner_walked by (simp add: requestSnap_def)

lemma corner_paused:
  "progressOf 480 (tickState (cornerCursorApi False) None (Some 0)
     (requestSnap (setTick (cornerCursorApi True) 0 480 None (Some 0)
        (setBeat (cornerCursorApi True) (Some cornerBeat) new_cursor)))) = 1"
  "\<not> modeA (tickState (cornerCursorApi False) None (Some 0)
     (requestSnap (setTick (cornerCursorApi True) 0 480 None (Some 0)
        (setBeat (cornerCursorApi True) (Some cornerBeat) new_cursor))))"
  "currentNoteX (requestSnap (setTick (cornerCursorApi True) 0 480 None (Some 0)
        (setBeat (cornerCursorApi True) (Some cornerBeat) new_cursor))) = 6"
  "el_transform (setTick (cornerCursorApi False) 40 480 None (Some 0)
     (requestSnap (setTick (cornerCursorApi True) 0 480 None (Some 0)
        (setBeat (cornerCursorApi True) (Some cornerBeat) new_cursor)))) = Translate3d 213 (-1)"
  unfolding corner_snapped
  by (simp_all add: setTick_def Let_def tickState_def useBeatStart_def fillIfNull_def progressOf_def
      finalXOf_def finalYOf_def totalHOf_def interpolatedX_def walkDistance_def modeA_def
      corner_bar applyTransform_def suppressed_def
      throttledLog_def throttledDebugLabel_def cursorWidth_def topOverhang_def bottomOverhang_def
      bottomPointBaseShift_def)

text \<open>
  The rendered position is not always the anchor. In the last beat of the sample bar
  (anchor 260, bar edge 310) the element is walked to 278 and then set back to 253 + 5/12;
  the paused update at progress 1 asks for 253, less than half a pixel away, and is
  dropped: the element stays at 253 + 5/12. And for a beat with its anchor at x = 6 and
  its top at y = 25 the paused update asks for (-1, -1), the value \<open>requestSnap\<close> leaves in
  the recorded last position: after a walk to the bar edge and a \<open>requestSnap\<close>, the paused
  update is dropped and the element stays at 213 = 220 - 7, the right edge of the bar.
\<close>

theorem setTick_pause_clamp_counterexample:
  "isPlaying (sampleCursorApi False) = Some False
   \<and> progressOf 11520 (tickState (sampleCursorApi False) None (Some 11040)
       (setTick (sampleCursorApi True) 10 11044 None (Some 11040)
         (setTick (sampleCursorApi True) 0 11280 None (Some 11040)
           (setBeat (sampleCursorApi True) (Some beat4) new_cursor)))) = 1
   \<and> currentNoteX (setTick (sampleCursorApi True) 10 11044 None (Some 11040)
         (setTick (sampleCursorApi True) 0 11280 None (Some 11040)
           (setBeat (sampleCursorApi True) (Some beat4) new_cursor))) = 260
   \<and> el_transform (setTick (sampleCursorApi False) 40 11520 None (Some 11040)
       (setTick (sampleCursorApi True) 10 11044 None (Some 11040)
         (setTick (sampleCursorApi True) 0 11280 None (Some 11040)
           (setBeat (sampleCursorApi True) (Some beat4) new_cursor)))) = Translate3d (3041 / 12) 274
   \<and> (3041 / 12 :: real) \<noteq> 260 - 7
   \<and> isPlaying (cornerCursorApi False) = Some False
   \<and> progressOf 480 (tickState (cornerCursorApi False) None (Some 0)
       (requestSnap (setTick (cornerCursorApi True) 0 480 None (Some 0)
          (setBeat (cornerCursorApi True) (Some cornerBeat) new_cursor)))) = 1
   \<and> \<not> modeA (tickState (cornerCursorApi False) None (Some 0)
       (requestSnap (setTick (cornerCursorApi True) 0 480 None (Some 0)
          (setBeat (cornerCursorApi True) (Some cornerBeat) new_cursor))))
   \<and> currentNoteX (requestSnap (setTick (cornerCursorApi True) 0 480 None (Some 0)
          (setBeat (cornerCursorApi True) (Some cornerBeat) new_cursor))) = 6
   \<and> findMasterBar (cornerCursorApi False) (masterBar cornerBeat)
       = Some \<lparr> rx = 0, ry = 25, rw = 220, rh = 80 \<rparr>
   \<and> el_transform (setTick (cornerCursorApi False) 40 480 None (Some 0)
       (requestSnap (setTick (cornerCursorApi True) 0 480 None (Some 0)
          (setBeat (cornerCursorApi True) (Some cornerBeat) new_cursor)))) = Translate3d 213 (- 1)"
  by (simp add: sample_playing sample_back_facts sample_beat4_facts sample_back_paused corner_bar
      corner_paused)

text \<open>
  Paused at the end of the last beat of the sample bar, in Mode B, with the element at 278:
  the element is drawn at 253 = 260 - 7, not at the bar edge 310. With the element at
  253 + 5/12, the recorded last position, it rests within half a pixel of 253.
\<close>

theorem setTick_pause_clamp_witness:
  "progressOf 11520 (tickState (sampleCursorApi False) None (Some 11040)
      (setTick (sampleCursorApi True) 0 11280 None (Some 11040)
         (setBeat (sampleCursorApi True) (Some beat4) new_cursor))) = 1
   \<and> nextBeatCenterX (setTick (sampleCursorApi True) 0 11280 None (Some 11040)
         (setBeat (sampleCursorApi True) (Some beat4) new_cursor)) = None
   \<and> findMasterBar (sampleCursorApi False) (masterBar beat4) = Some \<lparr> rx = 90, ry = 300, rw = 220, rh = 80 \<rparr>
   \<and> el_transform (setTick (sampleCursorApi True) 0 11280 None (Some 11040)
         (setBeat (sampleCursorApi True) (Some beat4) new_cursor)) = Translate3d 278 274
   \<and> interpolatedX (sampleCursorApi False) 11520
        (tickState (sampleCursorApi False) None (Some 11040)
           (setTick (sampleCursorApi True) 0 11280 None (Some 11040)
              (setBeat (sampleCursorApi True) (Some beat4) new_cursor))) = 260
   \<and> el_transform (setTick (sampleCursorApi False) 40 11520 None (Some 11040)
        (setTick (sampleCursorApi True) 0 11280 None (Some 11040)
           (setBeat (sampleCursorApi True) (Some beat4) new_cursor))) = Translate3d 253 274
   \<and> el_transform (setTick (sampleCursorApi True) 10 11044 None (Some 11040)
        (setTick (sampleCursorApi True) 0 11280 None (Some 11040)
           (setBeat (sampleCursorApi True) (Some beat4) new_cursor)))
       = Translate3d
           (lastFinalX (setTick (sampleCursorApi True) 10 11044 None (Some 11040)
              (setTick (sampleCursorApi True) 0 11280 None (Some 11040)
                 (setBeat (sampleCursorApi True) (Some beat4) new_cursor))))
           (lastFinalY (setTick (sampleCursorApi True) 10 11044 None (Some 11040)
              (setTick (sampleCursorApi True) 0 11280 None (Some 11040)
                 (setBeat (sampleCursorApi True) (Some beat4) new_cursor))))
   \<and> (\<exists>x y. el_transform (setTick (sampleCursorApi False) 40 11520 None (Some 11040)
          (setTick (sampleCursorApi True) 10 11044 None (Some 11040)
            (setTick (sampleCursorApi True) 0 11280 None (Some 11040)
              (setBeat (sampleCursorApi True) (Some beat4) new_cursor)))) = Translate3d x y
        \<and> \<bar>x - 253\<bar> < 0.5 \<and> \<bar>y - 274\<bar> < 0.5)"
proof -
  have a: "interpolatedX (sampleCursorApi False) 11520
        (tickState (sampleCursorApi False) None (Some 11040)
           (setTick (sampleCursorApi True) 0 11280 None (Some 11040)
              (setBeat (sampleCursorApi True) (Some beat4) new_cursor))) = 260
   \<and> el_transform (setTick (sampleCursorApi False) 40 11520 None (Some 11040)
        (setTick (sampleCursorApi True) 0 11280 None (Some 11040)
           (setBeat (sampleCursorApi True) (Some beat4) new_cursor))) = Translate3d 253 274"
    using setTick_pause_clamp [of "setTick (sampleCursorApi True) 0 11280 None (Some 11040)
           (setBeat (sampleCursorApi True) (Some beat4) new_cursor)"
        "sampleCursorApi False" 11520 None "Some 11040" 40]
    by (simp add: sample_walked_facts sample_beat4_facts sample_playing sample_bar_bounds
        sample_walked_last suppressed_def)
  have b: "\<exists>x y. el_transform (setTick (sampleCursorApi False) 40 11520 None (Some 11040)
          (setTick (sampleCursorApi True) 10 11044 None (Some 11040)
            (setTick (sampleCursorApi True) 0 11280 None (Some 11040)
              (setBeat (sampleCursorApi True) (Some beat4) new_cursor)))) = Translate3d x y
        \<and> \<bar>x - 253\<bar> < 0.5 \<and> \<bar>y - 274\<bar> < 0.5"
    using setTick_pause_clamp [of "setTick (sampleCursorApi True) 10 11044 None (Some 11040)
          (setTick (sampleCursorApi True) 0 11280 None (Some 11040)
             (setBeat (sampleCursorApi True) (Some beat4) new_cursor))"
        "sampleCursorApi False" 11520 None "Some 11040" 40]
    by (auto simp add: sample_back_facts sample_beat4_facts sample_playing suppressed_def)
  from a b show ?thesis
    by (simp add: sample_walked_facts sample_back_facts sample_bar_bounds)
qed

subsection \<open>A hidden cursor keeps its beat\<close>

text \<open>
  Hidden in the middle of the last beat of the bar, the cursor still walks: the next
  \<open>setTick\<close> moves the hidden element to the interpolated position.
\<close>

theorem setBeat_null_only_hides_witness:
  "el_visibility (setBeat (sampleCursorApi True) None
       (setBeat (sampleCursorApi True) (Some beat4) new_cursor)) = ''hidden''
   \<and> el_opacity (setBeat (sampleCursorApi True) None
       (setBeat (sampleCursorApi True) (Some beat4) new_cursor)) = ''0''
   \<and> currentBeat (setBeat (sampleCursorApi True) None
       (setBeat (sampleCursorApi True) (Some beat4) new_cursor)) = Some beat4
   \<and> el_transform (setTick (sampleCursorApi True) 0 11280 None (Some 11040)
       (setBeat (sampleCursorApi True) None
          (setBeat (sampleCursorApi True) (Some beat4) new_cursor))) = Translate3d 278 274
   \<and> el_visibility (setTick (sampleCursorApi True) 0 11280 None (Some 11040)
       (setBeat (sampleCursorApi True) None
          (setBeat (sampleCursorApi True) (Some beat4) new_cursor))) = ''hidden''"
proof -
  let ?s = "setBeat (sampleCursorApi True) (Some beat4) new_cursor"
  note T = setBeat_null_only_hides [of "sampleCursorApi True" ?s "sampleCursorApi True" 11280 None
      "Some 11040" 0]
  from T have a: "setBeat (sampleCursorApi True) None ?s = ?s\<lparr> el_visibility := ''hidden'', el_opacity := ''0'' \<rparr>"
    by blast
  from T have b: "setTick (sampleCursorApi True) 0 11280 None (Some 11040) (setBeat (sampleCursorApi True) None ?s)
      = (setTick (sampleCursorApi True) 0 11280 None (Some 11040) ?s)\<lparr> el_visibility := ''hidden'', el_opacity := ''0'' \<rparr>"
    by blast
  show ?thesis unfolding b unfolding a by (simp add: sample_walked_beat4 sample_beat4_facts)
qed


section \<open>Properties of the page handler\<close>

lemma backwardScan_calls: "n > 0 \<Longrightarrow> snd (backwardScan fb cur tick t n) > 0"
  by (cases n) (simp_all split: prod.split)

lemma beatEntry_calls: "snd (beatEntry api tc tick cur st) > 0"
proof -
  have "snd (backwardScan (tc_findBeat tc) cur tick (tick - 1) 2000) > 0"
    by (rule backwardScan_calls) simp
  then show ?thesis by (auto simp add: beatEntry_def split: prod.split)
qed

lemma beatEntry_player [simp]: "player (fst (beatEntry api tc tick cur st)) = player st"
  by (simp add: beatEntry_def split: prod.split)

lemma beatEntry_refs [simp]:
  "stableCurBeatRef (fst (beatEntry api tc tick cur st)) = Some cur"
  "lastTickRef (fst (beatEntry api tc tick cur st)) = lastTickRef st"
  by (simp_all add: beatEntry_def split: prod.split)

lemma isSameBeat_None [simp]: "isSameBeat a None = False" "isSameBeat None b = False"
  by (simp_all add: isSameBeat_def split: option.split)

text \<open>The handler past its early returns, as one equation.\<close>

lemma playerPositionChanged_tracking:
  assumes "cursorRef st = Some cur" and "eventTick e = Some tick"
    and "\<not> loopBoundaryHit (loopEnabledRef st) (playbackRange (player st)) tick"
    and "tickCache api = Some tc" and "resolveCurBeat api tc tick = Some curBeat"
  shows "snd (playerPositionChanged api now e st) =
     (if \<not> isSameBeat (Some curBeat) (stableCurBeatRef st) \<or> jumpDetected (lastTickRef st) tick
      then snd (beatEntry api tc tick curBeat
             (if jumpDetected (lastTickRef st) tick
              then st\<lparr> lastTickRef := Some tick, cursorRef := Some (requestSnap cur),
                       stableCurBeatRef := None, stableExpandedBeatStartRef := 0 \<rparr>
              else st\<lparr> lastTickRef := Some tick \<rparr>))
      else 0)"
  using assms by (simp add: playerPositionChanged_def Let_def split: prod.split)

lemma playerPositionChanged_early:
  "cursorRef st = None \<Longrightarrow> playerPositionChanged api now e st = (st, 0)"
  "eventTick e = None \<Longrightarrow> snd (playerPositionChanged api now e st) = 0"
  "eventTick e = Some tick \<Longrightarrow> loopBoundaryHit (loopEnabledRef st) (playbackRange (player st)) tick
     \<Longrightarrow> snd (playerPositionChanged api now e st) = 0"
  "eventTick e = Some tick \<Longrightarrow> tickCache api = None \<Longrightarrow> snd (playerPositionChanged api now e st) = 0"
  "eventTick e = Some tick \<Longrightarrow> tickCache api = Some tc \<Longrightarrow> resolveCurBeat api tc tick = None
     \<Longrightarrow> snd (playerPositionChanged api now e st) = 0"
  by (simp_all add: playerPositionChanged_def Let_def split: option.split)

text \<open>
  C3. On a position-change event the backward and the forward scan make a
  \<open>tickCache.findBeat\<close> call exactly when the handler gets as far as resolving a beat and that
  beat differs from the cached current beat under structural equality (equal
  \<open>absolutePlaybackStart\<close> and equal index of the owning master bar) or a jump was detected on
  the event. On every event whose resolved beat still matches the cached one, with no jump,
  neither loop makes a call.
\<close>

theorem scans_gated_by_beat_entry:
  "(snd (playerPositionChanged api now e st) > 0 \<longleftrightarrow>
      (\<exists>cur tick tc curBeat.
          cursorRef st = Some cur \<and> eventTick e = Some tick
        \<and> \<not> loopBoundaryHit (loopEnabledRef st) (playbackRange (player st)) tick
        \<and> tickCache api = Some tc \<and> resolveCurBeat api tc tick = Some curBeat
        \<and> (\<not> isSameBeat (Some curBeat) (stableCurBeatRef st) \<or> jumpDetected (lastTickRef st) tick)))
   \<and> (\<forall>tick tc curBeat.
          eventTick e = Some tick \<and> tickCache api = Some tc \<and> resolveCurBeat api tc tick = Some curBeat
        \<and> isSameBeat (Some curBeat) (stableCurBeatRef st) \<and> \<not> jumpDetected (lastTickRef st) tick
        \<longrightarrow> snd (playerPositionChanged api now e st) = 0)"
proof (intro conjI allI impI iffI)
  assume pos: "snd (playerPositionChanged api now e st) > 0"
  then obtain cur where cur: "cursorRef st = Some cur"
    using playerPositionChanged_early(1) [of st api now e] by (cases "cursorRef st") auto
  from pos obtain tick where tick: "eventTick e = Some tick"
    using playerPositionChanged_early(2) [of e api now st] by (cases "eventTick e") auto
  from pos tick have nohit: "\<not> loopBoundaryHit (loopEnabledRef st) (playbackRange (player st)) tick"
    using playerPositionChanged_early(3) [of e tick st api now] by auto
  from pos tick obtain tc where tc: "tickCache api = Some tc"
    using playerPositionChanged_early(4) [of e tick api now st] by (cases "tickCache api") auto
  from pos tick tc obtain curBeat where cb: "resolveCurBeat api tc tick = Some curBeat"
    using playerPositionChanged_early(5) [of e tick api tc now st]
    by (cases "resolveCurBeat api tc tick") auto
  have "\<not> isSameBeat (Some curBeat) (stableCurBeatRef st) \<or> jumpDetected (lastTickRef st) tick"
    using pos playerPositionChanged_tracking [OF cur tick nohit tc cb, of now]
    by (auto split: if_splits)
  with cur tick nohit tc cb
  show "\<exists>cur tick tc curBeat.
          cursorRef st = Some cur \<and> eventTick e = Some tick
        \<and> \<not> loopBoundaryHit (loopEnabledRef st) (playbackRange (player st)) tick
        \<and> tickCache api = Some tc \<and> resolveCurBeat api tc tick = Some curBeat
        \<and> (\<not> isSameBeat (Some curBeat) (stableCurBeatRef st) \<or> jumpDetected (lastTickRef st) tick)"
    by blast
next
  assume "\<exists>cur tick tc curBeat.
          cursorRef st = Some cur \<and> eventTick e = Some tick
        \<and> \<not> loopBoundaryHit (loopEnabledRef st) (playbackRange (player st)) tick
        \<and> tickCache api = Some tc \<and> resolveCurBeat api tc tick = Some curBeat
        \<and> (\<not> isSameBeat (Some curBeat) (stableCurBeatRef st) \<or> jumpDetected (lastTickRef st) tick)"
  then obtain cur tick tc curBeat where h:
    "cursorRef st = Some cur" "eventTick e = Some tick"
    "\<not> loopBoundaryHit (loopEnabledRef st) (playbackRange (player st)) tick"
    "tickCache api = Some tc" "resolveCurBeat api tc tick = Some curBeat"
    "\<not> isSameBeat (Some curBeat) (stableCurBeatRef st) \<or> jumpDetected (lastTickRef st) tick"
    by blast
  show "snd (playerPositionChanged api now e st) > 0"
    using playerPositionChanged_tracking [OF h(1-5), of now] h(6) beatEntry_calls by auto
next
  fix tick tc curBeat
  assume a: "eventTick e = Some tick \<and> tickCache api = Some tc \<and> resolveCurBeat api tc tick = Some curBeat
        \<and> isSameBeat (Some curBeat) (stableCurBeatRef st) \<and> \<not> jumpDetected (lastTickRef st) tick"
  show "snd (playerPositionChanged api now e st) = 0"
  proof (cases "cursorRef st")
    case None
    then show ?thesis by (simp add: playerPositionChanged_early(1))
  next
    case (Some cur)
    show ?thesis
    proof (cases "loopBoundaryHit (loopEnabledRef st) (playbackRange (player st)) tick")
      case True
      then show ?thesis using a playerPositionChanged_early(3) [of e tick st api now] by simp
    next
      case False
      then show ?thesis using a playerPositionChanged_tracking [OF Some _ False, of e api tc curBeat now]
        by simp
    qed
  qed
qed


lemma sample_resolve:
  "resolveCurBeat (samplePageApi p) sampleTickCache 9700 = Some beat1"
  "resolveCurBeat (samplePageApi p) sampleTickCache 9710 = Some beat1"
  "resolveCurBeat (samplePageApi p) sampleTickCache 10100 = Some beat2"
  by (simp_all add: resolveCurBeat_def resolveExpandedBeat_def samplePageApi_def sampleTickCache_def
      mblIndex_def mblDur_def bar5_def mbbIdx_def beatsOf_def beatOwnsTick_def durOf_def
      beat1_def beat2_def beat3_def beat4_def)

lemma sample_page_facts:
  "eventTick (tickEvent t) = Some t"
  "tickCache (samplePageApi p) = Some sampleTickCache"
  "cursorRef (loopingPage pl) = Some new_cursor"
  "cursorRef trackingPage = Some new_cursor"
  "\<not> loopBoundaryHit (loopEnabledRef (loopingPage idlePlayer)) (playbackRange (player (loopingPage idlePlayer))) t"
  "\<not> loopBoundaryHit (loopEnabledRef trackingPage) (playbackRange (player trackingPage)) t"
  "stableCurBeatRef (loopingPage pl) = None"
  "stableCurBeatRef trackingPage = Some beat1"
  "lastTickRef trackingPage = Some 9700"
  by (simp_all add: tickEvent_def eventTick_def samplePageApi_def loopingPage_def trackingPage_def
      loopBoundaryHit_def idlePlayer_def)

lemma sample_same_beat:
  "isSameBeat (Some beat1) (Some beat1)" "\<not> isSameBeat (Some beat2) (Some beat1)"
  "\<not> jumpDetected (Some 9700) 9710" "\<not> jumpDetected (Some 9700) 10100"
  by (simp_all add: isSameBeat_def jumpDetected_def beat1_def beat2_def)

theorem scans_gated_by_beat_entry_witness:
  "snd (playerPositionChanged (samplePageApi True) 0 (tickEvent 9700) (loopingPage idlePlayer)) > 0
   \<and> snd (playerPositionChanged (samplePageApi True) 0 (tickEvent 9710) trackingPage) = 0
   \<and> snd (playerPositionChanged (samplePageApi True) 0 (tickEvent 10100) trackingPage) > 0"
proof -
  have a: "snd (playerPositionChanged (samplePageApi True) 0 (tickEvent 9700) (loopingPage idlePlayer)) > 0"
    using scans_gated_by_beat_entry [of "samplePageApi True" 0 "tickEvent 9700" "loopingPage idlePlayer"]
      sample_resolve(1) [of True] sample_page_facts(1) [of 9700] sample_page_facts(2) [of True]
      sample_page_facts(3) [of idlePlayer] sample_page_facts(5) [of 9700]
    by (simp add: sample_page_facts(7))
  have b: "snd (playerPositionChanged (samplePageApi True) 0 (tickEvent 9710) trackingPage) = 0"
    using scans_gated_by_beat_entry [of "samplePageApi True" 0 "tickEvent 9710" trackingPage]
      sample_resolve(2) [of True] sample_page_facts(1) [of 9710] sample_page_facts(2) [of True]
      sample_same_beat
    by (simp add: sample_page_facts(8,9))
  have c: "snd (playerPositionChanged (samplePageApi True) 0 (tickEvent 10100) trackingPage) > 0"
    using scans_gated_by_beat_entry [of "samplePageApi True" 0 "tickEvent 10100" trackingPage]
      sample_resolve(3) [of True] sample_page_facts(1) [of 10100] sample_page_facts(2) [of True]
      sample_page_facts(4) sample_page_facts(6) [of 10100] sample_same_beat
    by (simp add: sample_page_facts(8,9))
  from a b c show ?thesis by simp
qed

subsection \<open>The loop boundary\<close>

lemma playerPositionChanged_wrap:
  assumes "cursorRef st = Some cur" and "eventTick e = Some tick"
    and "loopBoundaryHit (loopEnabledRef st) (playbackRange (player st)) tick"
  shows "playerPositionChanged api now e st =
     (st\<lparr> cursorRef := Some (requestSnap cur),
          player := (player st)\<lparr> tickPosition := map_option startTick (playbackRange (player st)) \<rparr> \<rparr>, 0)"
  using assms by (simp add: playerPositionChanged_def)

lemma playerPositionChanged_fst_tracking:
  assumes "cursorRef st = Some cur" and "eventTick e = Some tick"
    and "\<not> loopBoundaryHit (loopEnabledRef st) (playbackRange (player st)) tick"
    and "tickCache api = Some tc" and "resolveCurBeat api tc tick = Some curBeat"
  shows "\<exists>st2 st3. player st2 = player st \<and> (st3 = st2 \<or> st3 = fst (beatEntry api tc tick curBeat st2))
       \<and> fst (playerPositionChanged api now e st) =
           st3\<lparr> cursorRef := map_option (setTick (cursorApi api) now tick (stableNextBeatRef st3)
                                (Some (stableExpandedBeatStartRef st3))) (cursorRef st3) \<rparr>"
proof -
  define st2 where "st2 = (if jumpDetected (lastTickRef st) tick
              then st\<lparr> lastTickRef := Some tick, cursorRef := Some (requestSnap cur),
                       stableCurBeatRef := None, stableExpandedBeatStartRef := 0 \<rparr>
              else st\<lparr> lastTickRef := Some tick \<rparr>)"
  define X where "X = (if \<not> isSameBeat (Some curBeat) (stableCurBeatRef st2) \<or> jumpDetected (lastTickRef st) tick
                       then beatEntry api tc tick curBeat st2 else (st2, 0))"
  have p2: "player st2 = player st" by (simp add: st2_def)
  have x: "fst X = st2 \<or> fst X = fst (beatEntry api tc tick curBeat st2)" by (simp add: X_def)
  have "playerPositionChanged api now e st =
      (case X of (st3, calls) \<Rightarrow>
         (st3\<lparr> cursorRef := map_option (setTick (cursorApi api) now tick (stableNextBeatRef st3)
                                (Some (stableExpandedBeatStartRef st3))) (cursorRef st3) \<rparr>, calls))"
    using assms unfolding X_def st2_def by (simp add: playerPositionChanged_def Let_def)
  then have "fst (playerPositionChanged api now e st) =
      (fst X)\<lparr> cursorRef := map_option (setTick (cursorApi api) now tick (stableNextBeatRef (fst X))
                                (Some (stableExpandedBeatStartRef (fst X)))) (cursorRef (fst X)) \<rparr>"
    by (simp add: case_prod_beta)
  with p2 x show ?thesis by blast
qed


lemma playerPositionChanged_player:
  assumes "eventTick e = Some tick"
    and "\<not> loopBoundaryHit (loopEnabledRef st) (playbackRange (player st)) tick"
  shows "player (fst (playerPositionChanged api now e st)) = player st"
proof (cases "cursorRef st")
  case None
  then show ?thesis by (simp add: playerPositionChanged_def)
next
  case (Some cur)
  show ?thesis
  proof (cases "tickCache api")
    case None
    then show ?thesis using Some assms by (simp add: playerPositionChanged_def Let_def)
  next
    case tc: (Some tc)
    show ?thesis
    proof (cases "resolveCurBeat api tc tick")
      case None
      then show ?thesis using Some tc assms by (simp add: playerPositionChanged_def Let_def)
    next
      case cb: (Some curBeat)
      from playerPositionChanged_fst_tracking [OF Some assms tc cb, of now]
      obtain st2 st3 where h: "player st2 = player st"
        "st3 = st2 \<or> st3 = fst (beatEntry api tc tick curBeat st2)"
        "fst (playerPositionChanged api now e st) =
           st3\<lparr> cursorRef := map_option (setTick (cursorApi api) now tick (stableNextBeatRef st3)
                                (Some (stableExpandedBeatStartRef st3))) (cursorRef st3) \<rparr>"
        by blast
      from h(1,2) have "player st3 = player st" by auto
      then show ?thesis by (simp add: h(3))
    qed
  qed
qed

lemma lastValidFrom_bounds:
  "start \<le> lastValidFrom fb start t \<and> lastValidFrom fb start t \<le> max start t"
proof (induction fb start t rule: lastValidFrom.induct)
  case (1 fb start t)
  show ?case
  proof (cases "t \<ge> start \<and> fb t = None")
    case True
    then show ?thesis using 1 by (subst (1 2) lastValidFrom.simps) auto
  next
    case False
    then show ?thesis by (subst (1 2) lastValidFrom.simps) auto
  qed
qed

lemma lastValidFrom_resolves:
  assumes "\<exists>t. start \<le> t \<and> t \<le> hi \<and> fb t \<noteq> None"
  shows "start \<le> lastValidFrom fb start hi \<and> lastValidFrom fb start hi \<le> hi
       \<and> fb (lastValidFrom fb start hi) \<noteq> None
       \<and> (\<forall>t. lastValidFrom fb start hi < t \<and> t \<le> hi \<longrightarrow> fb t = None)"
  using assms
proof (induction fb start hi rule: lastValidFrom.induct)
  case (1 fb start t)
  from "1.prems" have ge: "t \<ge> start" by auto
  show ?case
  proof (cases "fb t = None")
    case False
    then have "lastValidFrom fb start t = t" using ge by (subst lastValidFrom.simps) simp
    then show ?thesis using ge False by auto
  next
    case True
    then have eq: "lastValidFrom fb start t = lastValidFrom fb start (t - 1)"
      using ge by (subst lastValidFrom.simps) simp
    from "1.prems" True have ex: "\<exists>u. start \<le> u \<and> u \<le> t - 1 \<and> fb u \<noteq> None"
      by (metis add.commute add_le_cancel_left diff_add_cancel zle_add1_eq_le order_le_less)
    from "1.IH" [OF ge _ ex] True
    have ih: "start \<le> lastValidFrom fb start (t - 1) \<and> lastValidFrom fb start (t - 1) \<le> t - 1
       \<and> fb (lastValidFrom fb start (t - 1)) \<noteq> None
       \<and> (\<forall>u. lastValidFrom fb start (t - 1) < u \<and> u \<le> t - 1 \<longrightarrow> fb u = None)"
      by simp
    have "fb u = None" if "lastValidFrom fb start (t - 1) < u \<and> u \<le> t" for u
    proof (cases "u = t")
      case True
      then show ?thesis using \<open>fb t = None\<close> by simp
    next
      case False
      then have "u \<le> t - 1" using that by simp
      then show ?thesis using ih that by blast
    qed
    then show ?thesis using ih eq by auto
  qed
qed

lemma lastValidFrom_none:
  assumes "\<forall>t. start \<le> t \<and> t \<le> hi \<longrightarrow> fb t = None"
  shows "lastValidFrom fb start hi = start"
  using assms
proof (induction fb start hi rule: lastValidFrom.induct)
  case (1 fb start t)
  show ?case
  proof (cases "t \<ge> start")
    case True
    then have n: "fb t = None" using "1.prems" by simp
    then have "lastValidFrom fb start t = lastValidFrom fb start (t - 1)"
      using True by (subst lastValidFrom.simps) simp
    moreover have "lastValidFrom fb start (t - 1) = start"
      using "1.IH" [OF True] n "1.prems" by simp
    ultimately show ?thesis by simp
  next
    case False
    then show ?thesis by (subst lastValidFrom.simps) simp
  qed
qed

text \<open>
  C2, as the code has it. Take the page with the cursor attached, loop mode on, a range
  [start, end) set, and an event that carries a tick. The boundary enforcer of the position
  handler snaps the cursor and forces the transport back to start exactly when the tick is
  at least end - 120; on any earlier tick the handler leaves the engine fields alone. No
  equality with the end is needed. The handler registered by \<open>enableManualLoop\<close> forces the
  transport to start exactly when the tick is below start or at least \<open>lastValid\<close>, and
  \<open>lastValid\<close> is the last tick of [start, end - 1] at which a beat resolves, or start when no
  beat resolves there.
\<close>

theorem loop_boundary_wraps_at_margin:
  assumes "cursorRef st = Some cur" and "loopEnabledRef st"
    and "playbackRange (player st) = Some r" and "eventTick e = Some tick"
  shows "(tick \<ge> endTick r - 120 \<longrightarrow>
            fst (playerPositionChanged api now e st) =
              st\<lparr> cursorRef := Some (requestSnap cur),
                   player := (player st)\<lparr> tickPosition := Some (startTick r) \<rparr> \<rparr>)
     \<and> (tick < endTick r - 120 \<longrightarrow> player (fst (playerPositionChanged api now e st)) = player st)
     \<and> (\<forall>start lastValid. manualLoop st = Some (start, lastValid) \<longrightarrow>
           manualLoopHandler e st =
             (if tick < start \<or> tick \<ge> lastValid
              then st\<lparr> player := (player st)\<lparr> tickPosition := Some start \<rparr> \<rparr> else st))
     \<and> (\<exists>lastValid. manualLoop (enableManualLoop api st) = Some (startTick r, lastValid)
            \<and> ((\<exists>t. startTick r \<le> t \<and> t < endTick r \<and> cacheFindBeat api t \<noteq> None) \<longrightarrow>
                   startTick r \<le> lastValid \<and> lastValid < endTick r
                 \<and> cacheFindBeat api lastValid \<noteq> None
                 \<and> (\<forall>t. lastValid < t \<and> t < endTick r \<longrightarrow> cacheFindBeat api t = None))
            \<and> ((\<forall>t. startTick r \<le> t \<and> t < endTick r \<longrightarrow> cacheFindBeat api t = None) \<longrightarrow>
                   lastValid = startTick r))"
proof (intro conjI allI impI)
  assume "tick \<ge> endTick r - 120"
  then have "loopBoundaryHit (loopEnabledRef st) (playbackRange (player st)) tick"
    using assms by (simp add: loopBoundaryHit_def SAFETY_MARGIN_def)
  then show "fst (playerPositionChanged api now e st) =
      st\<lparr> cursorRef := Some (requestSnap cur),
           player := (player st)\<lparr> tickPosition := Some (startTick r) \<rparr> \<rparr>"
    using playerPositionChanged_wrap [OF assms(1) assms(4), of api now] assms(3) by simp
next
  assume "tick < endTick r - 120"
  then have "\<not> loopBoundaryHit (loopEnabledRef st) (playbackRange (player st)) tick"
    using assms by (simp add: loopBoundaryHit_def SAFETY_MARGIN_def)
  then show "player (fst (playerPositionChanged api now e st)) = player st"
    using playerPositionChanged_player [OF assms(4)] by simp
next
  fix start lastValid
  assume "manualLoop st = Some (start, lastValid)"
  then show "manualLoopHandler e st =
      (if tick < start \<or> tick \<ge> lastValid
       then st\<lparr> player := (player st)\<lparr> tickPosition := Some start \<rparr> \<rparr> else st)"
    using assms(4) by (simp add: manualLoopHandler_def)
next
  let ?lv = "lastValidFrom (cacheFindBeat api) (startTick r) (endTick r - 1)"
  have m: "manualLoop (enableManualLoop api st) = Some (startTick r, ?lv)"
    using assms(3) by (simp add: enableManualLoop_def Let_def)
  have a: "startTick r \<le> ?lv \<and> ?lv < endTick r \<and> cacheFindBeat api ?lv \<noteq> None
         \<and> (\<forall>t. ?lv < t \<and> t < endTick r \<longrightarrow> cacheFindBeat api t = None)"
    if "\<exists>t. startTick r \<le> t \<and> t < endTick r \<and> cacheFindBeat api t \<noteq> None"
  proof -
    from that have "\<exists>t. startTick r \<le> t \<and> t \<le> endTick r - 1 \<and> cacheFindBeat api t \<noteq> None"
      by (metis zle_diff1_eq)
    from lastValidFrom_resolves [OF this] show ?thesis by (simp add: zle_diff1_eq)
  qed
  have b: "?lv = startTick r"
    if "\<forall>t. startTick r \<le> t \<and> t < endTick r \<longrightarrow> cacheFindBeat api t = None"
  proof -
    from that have "\<forall>t. startTick r \<le> t \<and> t \<le> endTick r - 1 \<longrightarrow> cacheFindBeat api t = None"
      by (simp add: zle_diff1_eq)
    then show ?thesis by (rule lastValidFrom_none)
  qed
  from m a b
  show "\<exists>lastValid. manualLoop (enableManualLoop api st) = Some (startTick r, lastValid)
            \<and> ((\<exists>t. startTick r \<le> t \<and> t < endTick r \<and> cacheFindBeat api t \<noteq> None) \<longrightarrow>
                   startTick r \<le> lastValid \<and> lastValid < endTick r
                 \<and> cacheFindBeat api lastValid \<noteq> None
                 \<and> (\<forall>t. lastValid < t \<and> t < endTick r \<longrightarrow> cacheFindBeat api t = None))
            \<and> ((\<forall>t. startTick r \<le> t \<and> t < endTick r \<longrightarrow> cacheFindBeat api t = None) \<longrightarrow>
                   lastValid = startTick r)"
    by blast
qed

lemma sample_loop_facts:
  "cursorRef (loopingPage pl) = Some new_cursor"
  "loopEnabledRef (loopingPage pl)"
  "player (loopingPage pl) = pl"
  "playbackRange (loopPlayer pos) = Some \<lparr> startTick = 9600, endTick = 11520 \<rparr>"
  "tickPosition (loopPlayer pos) = Some pos"
  "eventTick (tickEvent t) = Some t"
  by (simp_all add: loopingPage_def loopPlayer_def tickEvent_def eventTick_def)

text \<open>
  For the loop [9600, 11520) a tick of 11519 does wrap: it is past 11520 - 120 = 11400.
\<close>

theorem loop_boundary_wraps_at_margin_counterexample:
  "tickPosition (player (loopingPage (loopPlayer 11519))) = Some 11519
   \<and> tickPosition (player (fst (playerPositionChanged (samplePageApi True) 0 (tickEvent 11519)
                                   (loopingPage (loopPlayer 11519))))) = Some 9600"
proof -
  have "loopBoundaryHit (loopEnabledRef (loopingPage (loopPlayer 11519)))
          (playbackRange (player (loopingPage (loopPlayer 11519)))) 11519"
    by (simp add: sample_loop_facts loopBoundaryHit_def SAFETY_MARGIN_def)
  then show ?thesis
    using playerPositionChanged_wrap [of "loopingPage (loopPlayer 11519)" new_cursor
        "tickEvent 11519" 11519 "samplePageApi True" 0]
    by (simp add: sample_loop_facts)
qed

lemma sample_cache_findBeat: "cacheFindBeat (samplePageApi p) = sampleFindBeat"
  by (rule ext) (simp add: cacheFindBeat_def samplePageApi_def sampleTickCache_def)

lemma sample_lastValid: "lastValidFrom sampleFindBeat 9600 11519 = 11519"
  by (subst lastValidFrom.simps) (simp add: sampleFindBeat_def)

lemma sample_manual_facts:
  "cursorRef (enableManualLoop (samplePageApi True) (loopingPage (loopPlayer pos))) = Some new_cursor"
  "loopEnabledRef (enableManualLoop (samplePageApi True) (loopingPage (loopPlayer pos)))"
  "playbackRange (player (enableManualLoop (samplePageApi True) (loopingPage (loopPlayer pos))))
     = Some \<lparr> startTick = 9600, endTick = 11520 \<rparr>"
  "manualLoop (enableManualLoop (samplePageApi True) (loopingPage (loopPlayer pos))) = Some (9600, 11519)"
  "tickPosition (player (enableManualLoop (samplePageApi True) (loopingPage (loopPlayer pos)))) = Some pos"
  by (simp_all add: enableManualLoop_def Let_def loopingPage_def loopPlayer_def sample_cache_findBeat
      sample_lastValid)

text \<open>
  The same loop: 11399 leaves the engine alone, 11400 and 11520 reset the transport to
  9600; under \<open>enableManualLoop\<close> the last valid tick is 11519, so 11519 resets and 11518
  does not; without a tick cache no beat resolves and the last valid tick is the start.
\<close>

theorem loop_boundary_wraps_at_margin_witness:
  "player (fst (playerPositionChanged (samplePageApi True) 0 (tickEvent 11399)
                  (loopingPage (loopPlayer 11399)))) = loopPlayer 11399
   \<and> tickPosition (player (fst (playerPositionChanged (samplePageApi True) 0 (tickEvent 11400)
                                   (loopingPage (loopPlayer 11400))))) = Some 9600
   \<and> tickPosition (player (fst (playerPositionChanged (samplePageApi True) 0 (tickEvent 11520)
                                   (loopingPage (loopPlayer 11520))))) = Some 9600
   \<and> manualLoop (enableManualLoop (samplePageApi True) (loopingPage (loopPlayer 11519))) = Some (9600, 11519)
   \<and> tickPosition (player (manualLoopHandler (tickEvent 11519)
                              (enableManualLoop (samplePageApi True) (loopingPage (loopPlayer 11519)))))
       = Some 9600
   \<and> tickPosition (player (manualLoopHandler (tickEvent 11518)
                              (enableManualLoop (samplePageApi True) (loopingPage (loopPlayer 11518)))))
       = Some 11518
   \<and> manualLoop (enableManualLoop ((samplePageApi True)\<lparr> tickCache := None \<rparr>)
                    (loopingPage (loopPlayer 11519))) = Some (9600, 9600)"
proof -
  have a: "player (fst (playerPositionChanged (samplePageApi True) 0 (tickEvent 11399)
                  (loopingPage (loopPlayer 11399)))) = loopPlayer 11399"
    using loop_boundary_wraps_at_margin [of "loopingPage (loopPlayer 11399)" new_cursor
        "\<lparr> startTick = 9600, endTick = 11520 \<rparr>" "tickEvent 11399" 11399 "samplePageApi True" 0]
    by (simp add: sample_loop_facts)
  have b: "tickPosition (player (fst (playerPositionChanged (samplePageApi True) 0 (tickEvent 11400)
                                   (loopingPage (loopPlayer 11400))))) = Some 9600"
    using loop_boundary_wraps_at_margin [of "loopingPage (loopPlayer 11400)" new_cursor
        "\<lparr> startTick = 9600, endTick = 11520 \<rparr>" "tickEvent 11400" 11400 "samplePageApi True" 0]
    by (simp add: sample_loop_facts)
  have c: "tickPosition (player (fst (playerPositionChanged (samplePageApi True) 0 (tickEvent 11520)
                                   (loopingPage (loopPlayer 11520))))) = Some 9600"
    using loop_boundary_wraps_at_margin [of "loopingPage (loopPlayer 11520)" new_cursor
        "\<lparr> startTick = 9600, endTick = 11520 \<rparr>" "tickEvent 11520" 11520 "samplePageApi True" 0]
    by (simp add: sample_loop_facts)
  have d: "tickPosition (player (manualLoopHandler (tickEvent 11519)
                              (enableManualLoop (samplePageApi True) (loopingPage (loopPlayer 11519)))))
       = Some 9600"
    using loop_boundary_wraps_at_margin
        [of "enableManualLoop (samplePageApi True) (loopingPage (loopPlayer 11519))" new_cursor
        "\<lparr> startTick = 9600, endTick = 11520 \<rparr>" "tickEvent 11519" 11519 "samplePageApi True" 0]
    by (simp add: sample_manual_facts sample_loop_facts)
  have e: "tickPosition (player (manualLoopHandler (tickEvent 11518)
                              (enableManualLoop (samplePageApi True) (loopingPage (loopPlayer 11518)))))
       = Some 11518"
    using loop_boundary_wraps_at_margin
        [of "enableManualLoop (samplePageApi True) (loopingPage (loopPlayer 11518))" new_cursor
        "\<lparr> startTick = 9600, endTick = 11520 \<rparr>" "tickEvent 11518" 11518 "samplePageApi True" 0]
    by (simp add: sample_manual_facts sample_loop_facts)
  have f: "manualLoop (enableManualLoop ((samplePageApi True)\<lparr> tickCache := None \<rparr>)
                    (loopingPage (loopPlayer 11519))) = Some (9600, 9600)"
    using loop_boundary_wraps_at_margin [of "loopingPage (loopPlayer 11519)" new_cursor
        "\<lparr> startTick = 9600, endTick = 11520 \<rparr>" "tickEvent 11519" 11519
        "(samplePageApi True)\<lparr> tickCache := None \<rparr>" 0]
    by (auto simp add: sample_loop_facts cacheFindBeat_def)
  from a b c d e f show ?thesis by (simp add: sample_manual_facts)
qed

section \<open>Properties of the overlays\<close>

subsection \<open>The nearest occurrence\<close>

lemma foldl_nearer:
  "\<exists>i < length (x # xs).
      foldl (nearer ref) x xs = (x # xs) ! i
    \<and> (\<forall>j < length (x # xs). \<bar>mbl_start ((x # xs) ! i) - ref\<bar> \<le> \<bar>mbl_start ((x # xs) ! j) - ref\<bar>)
    \<and> (\<forall>j < i. \<bar>mbl_start ((x # xs) ! i) - ref\<bar> < \<bar>mbl_start ((x # xs) ! j) - ref\<bar>)"
proof (induction xs rule: rev_induct)
  case Nil
  then show ?case by simp
next
  case (snoc y xs)
  then obtain i where i: "i < length (x # xs)" "foldl (nearer ref) x xs = (x # xs) ! i"
    "\<forall>j < length (x # xs). \<bar>mbl_start ((x # xs) ! i) - ref\<bar> \<le> \<bar>mbl_start ((x # xs) ! j) - ref\<bar>"
    "\<forall>j < i. \<bar>mbl_start ((x # xs) ! i) - ref\<bar> < \<bar>mbl_start ((x # xs) ! j) - ref\<bar>"
    by blast
  let ?L = "x # xs" and ?L' = "x # (xs @ [y])"
  have L': "?L' = ?L @ [y]" by simp
  have old: "?L' ! j = ?L ! j" if "j < length ?L" for j
    using that unfolding L' by (simp only: nth_append if_True)
  have lst: "?L' ! length ?L = y" unfolding L' by (simp only: nth_append_length)
  show ?case
  proof (cases "\<bar>mbl_start y - ref\<bar> < \<bar>mbl_start (?L ! i) - ref\<bar>")
    case True
    then have r: "foldl (nearer ref) x (xs @ [y]) = y" using i(2) by (simp add: nearer_def)
    have a: "\<bar>mbl_start y - ref\<bar> \<le> \<bar>mbl_start (?L' ! j) - ref\<bar>" if "j < length ?L'" for j
    proof (cases "j < length ?L")
      case True
      then show ?thesis using old [OF True] i(3) \<open>\<bar>mbl_start y - ref\<bar> < \<bar>mbl_start (?L ! i) - ref\<bar>\<close>
        by (metis le_less_trans less_imp_le not_le)
    next
      case False
      then have "j = length ?L" using that by simp
      then show ?thesis using lst by simp
    qed
    have b: "\<bar>mbl_start y - ref\<bar> < \<bar>mbl_start (?L' ! j) - ref\<bar>" if "j < length ?L" for j
      using old [OF that] i(3) that \<open>\<bar>mbl_start y - ref\<bar> < \<bar>mbl_start (?L ! i) - ref\<bar>\<close>
      by (metis less_le_trans)
    show ?thesis
      apply (rule exI [of _ "length ?L"])
      using r a b lst by simp
  next
    case False
    then have r: "foldl (nearer ref) x (xs @ [y]) = ?L ! i" using i(2) by (simp add: nearer_def)
    have il: "i < length ?L'" using i(1) by simp
    have oi: "?L' ! i = ?L ! i" using old [OF i(1)] .
    have a: "\<bar>mbl_start (?L ! i) - ref\<bar> \<le> \<bar>mbl_start (?L' ! j) - ref\<bar>" if "j < length ?L'" for j
    proof (cases "j < length ?L")
      case True
      then show ?thesis using old [OF True] i(3) by simp
    next
      case F: False
      then have "j = length ?L" using that by simp
      then show ?thesis using lst False by simp
    qed
    have b: "\<bar>mbl_start (?L ! i) - ref\<bar> < \<bar>mbl_start (?L' ! j) - ref\<bar>" if "j < i" for j
    proof -
      have "j < length ?L" using that i(1) by simp
      then show ?thesis using old i(4) that by simp
    qed
    show ?thesis
      apply (rule exI [of _ i])
      using r a b il oi by simp
  qed
qed


text \<open>
  C4. For a structural bar index and a reference tick, \<open>resolveExpandedBarStart\<close> returns
  \<open>null\<close> when the tick cache holds no occurrence of that index. Otherwise it returns the start
  of an occurrence whose start is at minimal absolute distance from the reference, and of
  those at minimal distance the one scanned first: every occurrence scanned before it is
  strictly farther away.
\<close>

theorem resolveExpandedBarStart_nearest:
  "(instancesOf tco idx = [] \<longrightarrow> resolveExpandedBarStart tco idx ref = None)
   \<and> (instancesOf tco idx \<noteq> [] \<longrightarrow>
        (\<exists>i < length (instancesOf tco idx).
            resolveExpandedBarStart tco idx ref = Some (mbl_start (instancesOf tco idx ! i))
          \<and> (\<forall>j < length (instancesOf tco idx).
                 \<bar>mbl_start (instancesOf tco idx ! i) - ref\<bar> \<le> \<bar>mbl_start (instancesOf tco idx ! j) - ref\<bar>)
          \<and> (\<forall>j < i. \<bar>mbl_start (instancesOf tco idx ! i) - ref\<bar>
                        < \<bar>mbl_start (instancesOf tco idx ! j) - ref\<bar>)))"
proof (cases "instancesOf tco idx")
  case Nil
  then show ?thesis by (simp add: resolveExpandedBarStart_def)
next
  case (Cons x xs)
  then have r: "resolveExpandedBarStart tco idx ref = Some (mbl_start (foldl (nearer ref) x xs))"
    by (simp add: resolveExpandedBarStart_def)
  have ne: "instancesOf tco idx \<noteq> []" using Cons by simp
  from foldl_nearer [of x xs ref, folded Cons]
  obtain i where i: "i < length (instancesOf tco idx)"
    "foldl (nearer ref) x xs = instancesOf tco idx ! i"
    "\<forall>j < length (instancesOf tco idx).
        \<bar>mbl_start (instancesOf tco idx ! i) - ref\<bar> \<le> \<bar>mbl_start (instancesOf tco idx ! j) - ref\<bar>"
    "\<forall>j < i. \<bar>mbl_start (instancesOf tco idx ! i) - ref\<bar> < \<bar>mbl_start (instancesOf tco idx ! j) - ref\<bar>"
    by blast
  have "resolveExpandedBarStart tco idx ref = Some (mbl_start (instancesOf tco idx ! i))"
    using r i(2) by simp
  with i(1,3,4) ne show ?thesis by blast
qed

lemma sample_instances:
  "instancesOf (Some sampleTickCache) 5 =
     [ \<lparr> mbl_masterBar = Some bar5, mbl_start = 9600 \<rparr>,
       \<lparr> mbl_masterBar = Some bar5, mbl_start = 19200 \<rparr>,
       \<lparr> mbl_masterBar = Some bar5, mbl_start = 28800 \<rparr> ]"
  "instancesOf (Some sampleTickCache) 7 = []"
  by (simp_all add: instancesOf_def sampleTickCache_def mblIndex_def bar5_def)

theorem resolveExpandedBarStart_nearest_witness:
  "resolveExpandedBarStart (Some sampleTickCache) 5 20000 = Some 19200
   \<and> resolveExpandedBarStart (Some sampleTickCache) 5 14400 = Some 9600
   \<and> resolveExpandedBarStart (Some sampleTickCache) 7 20000 = None"
proof -
  let ?I = "instancesOf (Some sampleTickCache) 5"
  have ne: "?I \<noteq> []" and len: "length ?I = 3"
    and st: "mbl_start (?I ! 0) = 9600" "mbl_start (?I ! 1) = 19200" "mbl_start (?I ! 2) = 28800"
    by (simp_all add: sample_instances(1))
  have three: "i = 0 \<or> i = 1 \<or> i = 2" if "i < length ?I" for i :: nat using that len by auto
  have a: "resolveExpandedBarStart (Some sampleTickCache) 5 20000 = Some 19200"
  proof -
    from resolveExpandedBarStart_nearest [of "Some sampleTickCache" 5 20000] ne
    obtain i where i: "i < length ?I"
      "resolveExpandedBarStart (Some sampleTickCache) 5 20000 = Some (mbl_start (?I ! i))"
      "\<forall>j < length ?I. \<bar>mbl_start (?I ! i) - 20000\<bar> \<le> \<bar>mbl_start (?I ! j) - 20000\<bar>"
      by blast
    from i(3) len have "\<bar>mbl_start (?I ! i) - 20000\<bar> \<le> \<bar>mbl_start (?I ! 1) - 20000\<bar>" by simp
    then have "i = 1" using three [OF i(1)] st by auto
    then show ?thesis using i(2) st by simp
  qed
  have b: "resolveExpandedBarStart (Some sampleTickCache) 5 14400 = Some 9600"
  proof -
    from resolveExpandedBarStart_nearest [of "Some sampleTickCache" 5 14400] ne
    obtain i where i: "i < length ?I"
      "resolveExpandedBarStart (Some sampleTickCache) 5 14400 = Some (mbl_start (?I ! i))"
      "\<forall>j < i. \<bar>mbl_start (?I ! i) - 14400\<bar> < \<bar>mbl_start (?I ! j) - 14400\<bar>"
      by blast
    have "i = 0"
    proof (rule ccontr)
      assume "i \<noteq> 0"
      then have "0 < i" by simp
      with i(3) have "\<bar>mbl_start (?I ! i) - 14400\<bar> < \<bar>mbl_start (?I ! 0) - 14400\<bar>" by blast
      then show False using three [OF i(1)] st by auto
    qed
    then show ?thesis using i(2) st by simp
  qed
  have c: "resolveExpandedBarStart (Some sampleTickCache) 7 20000 = None"
    using resolveExpandedBarStart_nearest [of "Some sampleTickCache" 7 20000]
    by (simp add: sample_instances(2))
  from a b c show ?thesis by simp
qed

text \<open>The click handler's seek is the same resolver, shifted by the beat's offset in its bar.\<close>

lemma foldl_shifted:
  "foldl (\<lambda>prevT currT. if \<bar>currT - cur\<bar> < \<bar>prevT - cur\<bar> then currT else prevT)
      (mbl_start x + off) (map (\<lambda>mb. mbl_start mb + off) xs)
     = mbl_start (foldl (nearer (cur - off)) x xs) + off"
proof (induction xs arbitrary: x)
  case Nil
  then show ?case by simp
next
  case (Cons y ys)
  have "(if \<bar>mbl_start y + off - cur\<bar> < \<bar>mbl_start x + off - cur\<bar>
         then mbl_start y + off else mbl_start x + off)
        = mbl_start (nearer (cur - off) x y) + off"
    by (simp add: nearer_def algebra_simps)
  then show ?case using Cons.IH [of "nearer (cur - off) x y"] by simp
qed

lemma trueTargetTick_resolver:
  "trueTargetTick tco idx off cur = map_option (\<lambda>s. s + off) (resolveExpandedBarStart tco idx (cur - off))"
  by (cases "instancesOf tco idx")
     (simp_all add: trueTargetTick_def resolveExpandedBarStart_def foldl_shifted)

subsection \<open>The gesture\<close>

lemma onDown_pressed:
  assumes "loopRef st" and "resolved press = Some sb"
  shows "pressedOn tco sb (onDown tco press st)" "\<not> beatCrossedRef (onDown tco press st)"
    "commits (onDown tco press st) = commits st" "ov_player (onDown tco press st) = ov_player st"
  using assms by (simp_all add: onDown_def pressedOn_def)

lemma onMove_pressed:
  assumes "pressedOn tco sb s"
  shows "pressedOn tco sb (onMove tco m s)"
    "beatCrossedRef (onMove tco m s) = (beatCrossedRef s \<or> crosses tco sb m)"
    "commits (onMove tco m s) = commits s" "ov_player (onMove tco m s) = ov_player s"
  using assms by (auto simp add: onMove_def pressedOn_def crosses_def Let_def split: option.split)

lemma moves_pressed:
  assumes "pressedOn tco sb s"
  shows "pressedOn tco sb (foldl (\<lambda>s m. onMove tco m s) s moves)
     \<and> beatCrossedRef (foldl (\<lambda>s m. onMove tco m s) s moves)
          = (beatCrossedRef s \<or> (\<exists>m \<in> set moves. crosses tco sb m))
     \<and> commits (foldl (\<lambda>s m. onMove tco m s) s moves) = commits s
     \<and> ov_player (foldl (\<lambda>s m. onMove tco m s) s moves) = ov_player s"
  using assms
proof (induction moves arbitrary: s)
  case Nil
  then show ?case by simp
next
  case (Cons m moves)
  from onMove_pressed [OF Cons.prems, of m] Cons.IH [of "onMove tco m s"]
  show ?case by auto
qed

lemma onUp_bar_snap:
  assumes "pressedOn tco sb s" and "\<not> beatCrossedRef s"
    and "getExpandedBarRange tco (tickOf tco sb) (Some sb) = Some r" and "barIdx sb = Some i"
  shows "commits (onUp tco release s) = commits s @ [BarSnap (startTick r) (endTick r)]"
    "playbackRange (ov_player (onUp tco release s)) = Some r"
  using assms by (simp_all add: onUp_def pressedOn_def commitBarSnap_def Let_def)

lemma onUp_beat_level:
  assumes "pressedOn tco sb s"
    and "beatCrossedRef s \<or> getExpandedBarRange tco (tickOf tco sb) (Some sb) = None \<or> barIdx sb = None"
  shows "\<exists>lo hi. commits (onUp tco release s) = commits s @ [BeatLevel (tickOf tco lo) (tickOf tco hi + durOf hi)]
      \<and> playbackRange (ov_player (onUp tco release s))
          = Some \<lparr> startTick = tickOf tco lo, endTick = tickOf tco hi + durOf hi \<rparr>"
proof -
  have nb: "(if \<not> beatCrossedRef s then commitBarSnap tco sb (s\<lparr>isDragging := False\<rparr>) else None) = None"
    using assms(2) by (auto simp add: commitBarSnap_def split: option.split)
  obtain lo hi where lh: "loHi tco sb (case endBeat s of Some eb \<Rightarrow> eb | None \<Rightarrow> sb) = (lo, hi)"
    by (cases "loHi tco sb (case endBeat s of Some eb \<Rightarrow> eb | None \<Rightarrow> sb)") auto
  have "commits (onUp tco release s) = commits s @ [BeatLevel (tickOf tco lo) (tickOf tco hi + durOf hi)]
      \<and> playbackRange (ov_player (onUp tco release s))
          = Some \<lparr> startTick = tickOf tco lo, endTick = tickOf tco hi + durOf hi \<rparr>"
    using assms(1) nb lh by (simp add: onUp_def pressedOn_def Let_def)
  then show ?thesis by blast
qed


lemma crosses_iff:
  "(\<exists>m \<in> set moves. crosses tco sb m)
     \<longleftrightarrow> \<not> (\<forall>m \<in> set moves. \<forall>bt. resolved m = Some bt \<longrightarrow> tickOf tco bt = tickOf tco sb)"
  by (auto simp add: crosses_def split: option.splits)

text \<open>
  C8, as the code has it. Take a press that resolves a beat while loop mode is on, any moves
  and any release. The release commits the bar-snap range [a, b) if and only if no move of
  the gesture resolved a beat whose tick differs from the tick resolved at press, and the
  bar-snap helpers succeed on the pressed beat: \<open>getExpandedBarRange\<close> gives [a, b) for its
  tick and its bar index is known. The release event itself plays no part in the decision.
  When some move did resolve a different tick, the release commits a beat-level range.
\<close>

theorem release_bar_snap_iff_no_crossing:
  assumes "loopRef st" and "resolved press = Some sb"
  shows "(commits (gesture tco press moves release st) = commits st @ [BarSnap a b]
            \<longleftrightarrow> (\<forall>m \<in> set moves. \<forall>bt. resolved m = Some bt \<longrightarrow> tickOf tco bt = tickOf tco sb)
                \<and> getExpandedBarRange tco (tickOf tco sb) (Some sb) = Some \<lparr> startTick = a, endTick = b \<rparr>
                \<and> barIdx sb \<noteq> None)
     \<and> ((\<exists>m \<in> set moves. \<exists>bt. resolved m = Some bt \<and> tickOf tco bt \<noteq> tickOf tco sb)
            \<longrightarrow> (\<exists>x y. commits (gesture tco press moves release st) = commits st @ [BeatLevel x y]))"
proof -
  let ?s = "foldl (\<lambda>s m. onMove tco m s) (onDown tco press st) moves"
  let ?quiet = "\<forall>m \<in> set moves. \<forall>bt. resolved m = Some bt \<longrightarrow> tickOf tco bt = tickOf tco sb"
  have g: "gesture tco press moves release st = onUp tco release ?s" by (simp add: gesture_def)
  from moves_pressed [where moves = moves and tco = tco, OF onDown_pressed(1) [OF assms]]
    onDown_pressed(2,3) [OF assms, where tco = tco]
  have p: "pressedOn tco sb ?s" and c: "beatCrossedRef ?s \<longleftrightarrow> \<not> ?quiet"
    and k: "commits ?s = commits st"
    by (simp_all add: crosses_iff)
  show ?thesis
  proof (cases "?quiet \<and> getExpandedBarRange tco (tickOf tco sb) (Some sb) \<noteq> None \<and> barIdx sb \<noteq> None")
    case True
    then obtain r i where r: "getExpandedBarRange tco (tickOf tco sb) (Some sb) = Some r"
      and i: "barIdx sb = Some i" by auto
    have nc: "\<not> beatCrossedRef ?s" using c True by simp
    have "commits (gesture tco press moves release st) = commits st @ [BarSnap (startTick r) (endTick r)]"
      using onUp_bar_snap(1) [OF p nc r i, where release = release] g k by simp
    moreover have "r = \<lparr> startTick = a, endTick = b \<rparr> \<longleftrightarrow> startTick r = a \<and> endTick r = b"
      by (cases r) auto
    ultimately show ?thesis using True r i by auto
  next
    case False
    then have f: "beatCrossedRef ?s \<or> getExpandedBarRange tco (tickOf tco sb) (Some sb) = None \<or> barIdx sb = None"
      using c by auto
    from onUp_beat_level [OF p f, where release = release] obtain lo hi where
      "commits (gesture tco press moves release st)
         = commits st @ [BeatLevel (tickOf tco lo) (tickOf tco hi + durOf hi)]"
      using g k by auto
    then show ?thesis using False by auto
  qed
qed


lemma sample_ticks:
  "tickOf (Some sampleTickCache) beat1 = 9600" "tickOf (Some sampleTickCache) beat3 = 10560"
  "tickOf (Some sampleTickCache) strayBeat = 9600"
  "barIdx beat1 = Some 5" "barIdx strayBeat = None"
  "durOf beat3 = 480" "durOf strayBeat = 480" "durOf beat1 = 480"
  by (simp_all add: tickOf_def sampleTickCache_def beat1_def beat3_def strayBeat_def barIdx_def durOf_def)

lemma sample_bar_range:
  "getExpandedBarRange (Some sampleTickCache) 9600 bo = Some \<lparr> startTick = 9600, endTick = 11520 \<rparr>"
  by (simp add: getExpandedBarRange_def sampleTickCache_def inExpandedBar_def mblDur_def bar5_def)

lemma sample_pointer:
  "resolved (pointerAt b x) = b" "clientX (pointerAt b x) = x" "clientY (pointerAt b x) = 320"
  "loopRef idleOverlay" "commits idleOverlay = []"
  by (simp_all add: pointerAt_def idleOverlay_def)

text \<open>
  A press at tick 9600 with three moves that resolve tick 9600 again commits the whole bar,
  [9600, 11520), even though the release resolves the next beat; a gesture that crossed to
  another beat and came back commits a beat-level range.
\<close>

theorem release_bar_snap_iff_no_crossing_witness:
  "commits (gesture (Some sampleTickCache) (pointerAt (Some beat1) 115)
              [pointerAt (Some beat1) 115.2, pointerAt (Some beat1) 115.4, pointerAt (Some beat1) 115.3]
              (pointerAt (Some beat2) 115.3) idleOverlay) = [BarSnap 9600 11520]
   \<and> (\<exists>x y. commits (gesture (Some sampleTickCache) (pointerAt (Some beat1) 115)
              [pointerAt (Some beat1) 118, pointerAt (Some beat3) 215, pointerAt (Some beat1) 118]
              (pointerAt (Some beat1) 118) idleOverlay) = [BeatLevel x y])"
proof -
  have a: "commits (gesture (Some sampleTickCache) (pointerAt (Some beat1) 115)
              [pointerAt (Some beat1) 115.2, pointerAt (Some beat1) 115.4, pointerAt (Some beat1) 115.3]
              (pointerAt (Some beat2) 115.3) idleOverlay) = [BarSnap 9600 11520]"
    using release_bar_snap_iff_no_crossing [of idleOverlay "pointerAt (Some beat1) 115" beat1
        "Some sampleTickCache"
        "[pointerAt (Some beat1) 115.2, pointerAt (Some beat1) 115.4, pointerAt (Some beat1) 115.3]"
        "pointerAt (Some beat2) 115.3" 9600 11520]
    by (simp add: sample_pointer sample_ticks sample_bar_range)
  have b: "\<exists>x y. commits (gesture (Some sampleTickCache) (pointerAt (Some beat1) 115)
              [pointerAt (Some beat1) 118, pointerAt (Some beat3) 215, pointerAt (Some beat1) 118]
              (pointerAt (Some beat1) 118) idleOverlay) = [BeatLevel x y]"
    using release_bar_snap_iff_no_crossing [of idleOverlay "pointerAt (Some beat1) 115" beat1
        "Some sampleTickCache"
        "[pointerAt (Some beat1) 118, pointerAt (Some beat3) 215, pointerAt (Some beat1) 118]"
        "pointerAt (Some beat1) 118" 9600 11520]
    by (simp add: sample_pointer sample_ticks sample_bar_range)
  from a b show ?thesis by simp
qed

text \<open>
  Without the helpers the equivalence fails: on a beat whose bar index is unknown
  \<open>commitBarSnap\<close> returns false and the release falls through to the beat-level commit,
  although no move left the pressed beat.
\<close>

theorem release_bar_snap_iff_no_crossing_counterexample:
  "commits (gesture (Some sampleTickCache) (pointerAt (Some strayBeat) 115)
              [pointerAt (Some strayBeat) 115.2] (pointerAt (Some strayBeat) 115.2) idleOverlay)
     = [BeatLevel 9600 10080]"
  by (simp add: gesture_def onDown_def onMove_def onUp_def commitBarSnap_def loHi_def Let_def
      sample_pointer sample_ticks sample_bar_range idleOverlay_def)

subsection \<open>Where the loop ends\<close>





















end
